theory Spec2Isabelle
  imports Main "HOL-Library.Sublist"
begin

section \<open>The dependency installer of pyMode (install.py)\<close>

text \<open>
  The script is sequential glue around the operating system: it creates directories,
  changes the working directory, edits \<open>os.environ\<close>, downloads two archives, runs
  native build tools and writes two files. The model makes that state explicit in a
  record \<open>world\<close>, every function of the script becomes a function from worlds to
  outcomes, and an exception is the left injection of the outcome, carrying the world
  at the moment it was raised.
\<close>

subsection \<open>Module constants\<close>

definition pymode_deps :: string where
  "pymode_deps = ''.pymode_deps''"

definition PETSC_VERSION :: string where
  "PETSC_VERSION = ''3.12.1''"

definition SLEPC_VERSION :: string where
  "SLEPC_VERSION = ''3.12.1''"

text \<open>The characters the script writes as \<open>\n\<close>, \<open>\033\<close> and \<open>'\<close>.\<close>

definition newline :: string where
  "newline = [CHR 0x0A]"

definition escape :: string where
  "escape = [CHR 0x1B]"

definition quote :: string where
  "quote = [CHR 0x27]"

subsection \<open>Path names\<close>

text \<open>
  A location of the file system is the list of the components of its absolute path;
  the root is the empty list. Path names given by the script are strings, resolved
  against the working directory as the operating system does for a tree without
  symbolic links: a leading slash starts from the root, empty components and \<open>.\<close>
  are skipped, \<open>..\<close> steps to the parent.
\<close>

type_synonym path = "string list"

fun split_path :: "string \<Rightarrow> string list" where
  "split_path [] = [[]]"
| "split_path (c # cs) =
     (if c = CHR ''/'' then [] # split_path cs
      else (case split_path cs of [] \<Rightarrow> [[c]] | x # xs \<Rightarrow> (c # x) # xs))"

fun walk :: "path \<Rightarrow> string list \<Rightarrow> path" where
  "walk p [] = p"
| "walk p (c # cs) =
     (if c = [] \<or> c = ''.'' then walk p cs
      else if c = ''..'' then walk (butlast p) cs
      else walk (p @ [c]) cs)"

definition resolve :: "path \<Rightarrow> string \<Rightarrow> path" where
  "resolve wd name =
     (case name of
        [] \<Rightarrow> wd
      | c # cs \<Rightarrow> if c = CHR ''/'' then walk [] (split_path name)
                 else walk wd (split_path name))"

text \<open>\<open>os.getcwd()\<close>: the absolute path of a location, as a string.\<close>

definition path_string :: "path \<Rightarrow> string" where
  "path_string p = (if p = [] then ''/'' else concat (map (\<lambda>c. CHR ''/'' # c) p))"

text \<open>A component that names a child: not empty, not \<open>.\<close> or \<open>..\<close>, no slash.\<close>

definition plain :: "string \<Rightarrow> bool" where
  "plain c = (c \<noteq> [] \<and> c \<noteq> ''.'' \<and> c \<noteq> ''..'' \<and> CHR ''/'' \<notin> set c)"

subsection \<open>The state of the process and of its surroundings\<close>

datatype node = Dir | File string

datatype errclass =
  FileNotFoundError | NotADirectoryError | IsADirectoryError | FileExistsError
  | PermissionError | ExternalError

text \<open>An exception: its class and the text \<open>str(e)\<close> prints. Every class here
  derives from \<open>Exception\<close>, so \<open>except Exception\<close> catches each of them.\<close>

datatype pyerror = PyError errclass string

fun str_of :: "pyerror \<Rightarrow> string" where
  "str_of (PyError c m) = m"

text \<open>
  The history of what the process did to the outside: each HTTP request and each
  child process with the environment it saw, and each file it opened for writing (created,
  truncated or opened for appending) with the mode. An \<open>open\<close> that raises opens nothing
  and leaves no entry.
\<close>

datatype event =
  HttpGet string "string \<Rightarrow> string option"
  | Call "string list" "string \<Rightarrow> string option"
  | Open_file string string

record world =
  cwd :: path
  fs :: "path \<Rightarrow> node option"
  environ :: "string \<Rightarrow> string option"
  terminal :: string
  logfile :: string
  log_handle :: "path option"
  trace :: "event list"

text \<open>
  \<open>terminal\<close> is what the original standard output stream has received. \<open>logfile\<close>
  is what the file object opened by the Logger holds: the content of the file when it was
  opened and every message written to the object since. The object is buffered; its data
  reach the file at \<open>log_handle\<close> when the object is flushed, which the script never
  does (\<open>Logger.flush\<close> is empty and the log is never closed) and the interpreter does
  when the process ends. (The I/O layer also writes through when its buffer, 8192 bytes
  by default, is full; the model keeps the data in the object until the end.)

  What the script cannot decide is a parameter: the answer of the server, what a
  child process does to the file system (or that it cannot be started, which raises;
  its exit status is dropped by the script), and the locations where the operating
  system refuses a change.
\<close>

record externals =
  http_get :: "string \<Rightarrow> (string \<Rightarrow> string option) \<Rightarrow> pyerror + string"
  run :: "string list \<Rightarrow> path \<Rightarrow> (string \<Rightarrow> string option) \<Rightarrow> (path \<Rightarrow> node option)
            \<Rightarrow> pyerror + (path \<Rightarrow> node option)"
  denied :: "path \<Rightarrow> bool"

text \<open>
  Outside the model: exceptions that do not derive from \<open>Exception\<close> (an interrupt from
  the keyboard, the exit of \<open>parse_args\<close> on a malformed command line, whose result
  \<open>args.prefix\<close> is a parameter here), what child processes print on the terminal
  themselves, symbolic links, and names whose \<open>..\<close> steps leave a directory that does
  not exist (\<open>..\<close> is resolved on the name). A library call that raises leaves the file
  system as it found it, except \<open>shutil.rmtree\<close>, which has emptied the directory when
  the removal of the directory itself is refused.
\<close>

type_synonym outcome = "(pyerror \<times> world) + world"

definition raise :: "errclass \<Rightarrow> string \<Rightarrow> world \<Rightarrow> outcome" where
  "raise c m w = Inl (PyError c m, w)"

definition ok :: "(world \<Rightarrow> world) \<Rightarrow> world \<Rightarrow> outcome" where
  "ok f w = Inr (f w)"

text \<open>Statements in sequence: the first exception ends the sequence.\<close>

fun seq :: "(world \<Rightarrow> outcome) list \<Rightarrow> world \<Rightarrow> outcome" where
  "seq [] w = Inr w"
| "seq (f # rest) w = (case f w of Inl e \<Rightarrow> Inl e | Inr w' \<Rightarrow> seq rest w')"

text \<open>\<open>try: body except Exception as e: handler\<close>.\<close>

definition try_except ::
  "(world \<Rightarrow> outcome) \<Rightarrow> (pyerror \<Rightarrow> world \<Rightarrow> outcome) \<Rightarrow> world \<Rightarrow> outcome" where
  "try_except body handler w =
     (case body w of Inl (e, w') \<Rightarrow> handler e w' | Inr w' \<Rightarrow> Inr w')"

definition succeeded :: "outcome \<Rightarrow> bool" where
  "succeeded r = (case r of Inl _ \<Rightarrow> False | Inr _ \<Rightarrow> True)"

definition final :: "outcome \<Rightarrow> world" where
  "final r = (case r of Inl (e, w) \<Rightarrow> w | Inr w \<Rightarrow> w)"

subsection \<open>Library calls\<close>

definition is_dir :: "node option \<Rightarrow> bool" where
  "is_dir n = (case n of Some Dir \<Rightarrow> True | _ \<Rightarrow> False)"

definition is_file :: "node option \<Rightarrow> bool" where
  "is_file n = (case n of Some (File c) \<Rightarrow> True | _ \<Rightarrow> False)"

definition dir_syntax :: "string \<Rightarrow> bool" where
  "dir_syntax name = (name \<noteq> [] \<and> last name = CHR ''/'')"

text \<open>\<open>os.path.exists\<close>, \<open>os.path.isfile\<close>: a name with a trailing slash only
  names a directory; the empty name names nothing.\<close>

definition os_path_exists :: "string \<Rightarrow> world \<Rightarrow> bool" where
  "os_path_exists name w =
     (name \<noteq> [] \<and>
      (case fs w (resolve (cwd w) name) of
         None \<Rightarrow> False
       | Some Dir \<Rightarrow> True
       | Some (File c) \<Rightarrow> \<not> dir_syntax name))"

definition os_path_isfile :: "string \<Rightarrow> world \<Rightarrow> bool" where
  "os_path_isfile name w =
     (name \<noteq> [] \<and> is_file (fs w (resolve (cwd w) name)) \<and> \<not> dir_syntax name)"

text \<open>\<open>os.makedirs(name)\<close>: creates the directory and every missing ancestor;
  raises when the leaf exists, when an ancestor is a file, when a creation is refused.\<close>

definition os_makedirs :: "externals \<Rightarrow> string \<Rightarrow> world \<Rightarrow> outcome" where
  "os_makedirs X name w =
     (let q = resolve (cwd w) name in
      if name = [] then raise FileNotFoundError name w
      else if fs w q \<noteq> None then raise FileExistsError name w
      else if list_ex (\<lambda>p. is_file (fs w p)) (prefixes q) then raise NotADirectoryError name w
      else if list_ex (\<lambda>p. fs w p = None \<and> denied X p) (prefixes q)
        then raise PermissionError name w
      else Inr (w\<lparr>fs := (\<lambda>p. if prefix p q \<and> fs w p = None then Some Dir else fs w p)\<rparr>))"

definition os_chdir :: "string \<Rightarrow> world \<Rightarrow> outcome" where
  "os_chdir name w =
     (let q = resolve (cwd w) name in
      if name = [] then raise FileNotFoundError name w
      else (case fs w q of
              None \<Rightarrow> raise FileNotFoundError name w
            | Some (File c) \<Rightarrow> raise NotADirectoryError name w
            | Some Dir \<Rightarrow> Inr (w\<lparr>cwd := q\<rparr>)))"

definition os_getcwd :: "world \<Rightarrow> string" where
  "os_getcwd w = path_string (cwd w)"

text \<open>\<open>shutil.rmtree(name)\<close>: removes everything below the directory, then the directory.\<close>

definition shutil_rmtree :: "externals \<Rightarrow> string \<Rightarrow> world \<Rightarrow> outcome" where
  "shutil_rmtree X name w =
     (let q = resolve (cwd w) name in
      if name = [] then raise FileNotFoundError name w
      else (case fs w q of
              None \<Rightarrow> raise FileNotFoundError name w
            | Some (File c) \<Rightarrow> raise NotADirectoryError name w
            | Some Dir \<Rightarrow>
                if denied X q
                then raise PermissionError name
                       (w\<lparr>fs := (\<lambda>p. if prefix q p \<and> p \<noteq> q then None else fs w p)\<rparr>)
                else Inr (w\<lparr>fs := (\<lambda>p. if prefix q p then None else fs w p)\<rparr>)))"

definition os_remove :: "externals \<Rightarrow> string \<Rightarrow> world \<Rightarrow> outcome" where
  "os_remove X name w =
     (let q = resolve (cwd w) name in
      if name = [] then raise FileNotFoundError name w
      else (case fs w q of
              None \<Rightarrow> raise FileNotFoundError name w
            | Some Dir \<Rightarrow> raise IsADirectoryError name w
            | Some (File c) \<Rightarrow>
                if denied X q then raise PermissionError name w
                else Inr (w\<lparr>fs := (fs w)(q := None)\<rparr>)))"

text \<open>
  \<open>with open(name, mode) as f: f.write(...)\<close> for the modes \<open>w\<close> and \<open>wb\<close>: the
  file is created or truncated and holds what was written when the block is left.
\<close>

definition write_file :: "externals \<Rightarrow> string \<Rightarrow> string \<Rightarrow> string \<Rightarrow> world \<Rightarrow> outcome" where
  "write_file X name mode content w =
     (let q = resolve (cwd w) name in
      if name = [] then raise FileNotFoundError name w
      else if q = [] \<or> is_dir (fs w q) \<or> dir_syntax name then raise IsADirectoryError name w
      else if is_file (fs w (butlast q)) then raise NotADirectoryError name w
      else if \<not> is_dir (fs w (butlast q)) then raise FileNotFoundError name w
      else if denied X q then raise PermissionError name w
      else Inr (w\<lparr>trace := trace w @ [Open_file name mode],
                  fs := (fs w)(q \<mapsto> File content)\<rparr>))"

text \<open>\<open>open(name, "a")\<close>: the file is created when absent and keeps its content
  otherwise; the file object is open on that file, and later writes to the object extend
  \<open>logfile\<close>.\<close>

definition open_append :: "externals \<Rightarrow> string \<Rightarrow> world \<Rightarrow> outcome" where
  "open_append X name w =
     (let q = resolve (cwd w) name;
          old = (case fs w q of Some (File c) \<Rightarrow> c | _ \<Rightarrow> []) in
      if name = [] then raise FileNotFoundError name w
      else if q = [] \<or> is_dir (fs w q) \<or> dir_syntax name then raise IsADirectoryError name w
      else if is_file (fs w (butlast q)) then raise NotADirectoryError name w
      else if \<not> is_dir (fs w (butlast q)) then raise FileNotFoundError name w
      else if denied X q then raise PermissionError name w
      else Inr (w\<lparr>trace := trace w @ [Open_file name ''a''],
                  fs := (fs w)(q \<mapsto> File old), logfile := old, log_handle := Some q\<rparr>))"

text \<open>\<open>subprocess.call(args)\<close>: the child inherits the working directory and the
  environment; the return code is dropped by every caller.\<close>

definition call :: "externals \<Rightarrow> string list \<Rightarrow> world \<Rightarrow> outcome" where
  "call X args w =
     (let w' = w\<lparr>trace := trace w @ [Call args (environ w)]\<rparr> in
      case run X args (cwd w) (environ w) (fs w) of
        Inl e \<Rightarrow> Inl (e, w')
      | Inr fs' \<Rightarrow> Inr (w'\<lparr>fs := fs'\<rparr>))"

text \<open>\<open>r = requests.get(url, allow_redirects=True)\<close> followed by
  \<open>with open(fname, "wb") as fsave: fsave.write(r.content)\<close>.\<close>

definition download :: "externals \<Rightarrow> string \<Rightarrow> string \<Rightarrow> world \<Rightarrow> outcome" where
  "download X url fname w =
     (let w' = w\<lparr>trace := trace w @ [HttpGet url (environ w)]\<rparr> in
      case http_get X url (environ w) of
        Inl e \<Rightarrow> Inl (e, w')
      | Inr content \<Rightarrow> write_file X fname ''wb'' content w')"

definition environ_del :: "string \<Rightarrow> world \<Rightarrow> world" where
  "environ_del k w = w\<lparr>environ := (environ w)(k := None)\<rparr>"

definition environ_set :: "string \<Rightarrow> string \<Rightarrow> world \<Rightarrow> world" where
  "environ_set k v w = w\<lparr>environ := (environ w)(k \<mapsto> v)\<rparr>"

subsection \<open>class Logger\<close>

text \<open>\<open>Logger.write\<close>: first the terminal, then the file object of the log.\<close>

definition Logger_write :: "string \<Rightarrow> world \<Rightarrow> world" where
  "Logger_write message w = w\<lparr>terminal := terminal w @ message, logfile := logfile w @ message\<rparr>"

definition Logger_init :: "externals \<Rightarrow> string \<Rightarrow> world \<Rightarrow> outcome" where
  "Logger_init X log_fname =
     seq [(\<lambda>w. if os_path_isfile log_fname w then os_remove X log_fname w else Inr w),
          open_append X log_fname]"

text \<open>
  The end of the process: the interpreter flushes and closes the file object of the
  Logger. What the object holds becomes the content of the file it is open on, if that
  file is still there.
\<close>

definition flush_log :: "world \<Rightarrow> world" where
  "flush_log w =
     (case log_handle w of
        None \<Rightarrow> w
      | Some q \<Rightarrow>
          (case fs w q of
             Some (File c) \<Rightarrow> w\<lparr>fs := (fs w)(q \<mapsto> File (logfile w))\<rparr>
           | _ \<Rightarrow> w))"

text \<open>\<open>print(s)\<close> with \<open>sys.stdout\<close> redirected to the Logger: the text, then the
  line end, each through \<open>Logger.write\<close>.\<close>

definition py_print :: "string \<Rightarrow> world \<Rightarrow> world" where
  "py_print s w = Logger_write newline (Logger_write s w)"

definition print_message :: "string \<Rightarrow> world \<Rightarrow> world" where
  "print_message s = py_print (concat [escape @ ''[92m'', s, escape @ ''[0m''])"

subsection \<open>write_deps_file\<close>

definition dep_fname :: "string \<Rightarrow> string" where
  "dep_fname home_dir = home_dir @ ''/'' @ pymode_deps"

definition deps_content :: "string \<Rightarrow> string" where
  "deps_content install_dir =
     (''PETSC_DIR='' @ install_dir @ newline) @ (''PETSC_ARCH='' @ newline)
       @ (''SLEPC_DIR='' @ install_dir @ newline)"

definition write_deps_file :: "externals \<Rightarrow> string \<Rightarrow> string \<Rightarrow> string \<Rightarrow> world \<Rightarrow> outcome" where
  "write_deps_file X home_dir include_dir install_dir =
     write_file X (dep_fname home_dir) ''w'' (deps_content install_dir)"

subsection \<open>The two installers\<close>

definition petsc_url :: string where
  "petsc_url = ''http://ftp.mcs.anl.gov/pub/petsc/release-snapshots/petsc-'' @ PETSC_VERSION
                 @ ''.tar.gz''"

definition petsc_fname :: string where
  "petsc_fname = ''petsc-'' @ PETSC_VERSION @ ''.tar.gz''"

definition petsc_folder :: string where
  "petsc_folder = ''petsc-'' @ PETSC_VERSION"

definition petsc_configure :: "string \<Rightarrow> string list" where
  "petsc_configure install_dir =
     [''./configure'',
      ''--with-scalar-type=complex'',
      ''--with-mpi=1'',
      ''--COPTFLAGS='' @ quote @ ''-O3'' @ quote,
      ''--FOPTFLAGS='' @ quote @ ''-O3'' @ quote,
      ''--CXXOPTFLAGS='' @ quote @ ''-O3'' @ quote,
      ''--with-debugging=0'',
      ''--prefix='' @ install_dir,
      ''--download-scalapack'',
      ''--download-mumps'',
      ''--download-openblas'']"

definition install_petsc :: "externals \<Rightarrow> string \<Rightarrow> world \<Rightarrow> outcome" where
  "install_petsc X install_dir =
     seq [ok (\<lambda>w. if ''PETSC_DIR'' \<in> dom (environ w) then environ_del ''PETSC_DIR'' w else w),
          ok (\<lambda>w. if ''PETSC_ARCH'' \<in> dom (environ w) then environ_del ''PETSC_ARCH'' w else w),
          ok (print_message ''Downloading PETSc...''),
          download X petsc_url petsc_fname,
          call X [''tar'', ''xvzf'', petsc_fname],
          os_chdir petsc_folder,
          ok (print_message ''Compiling PETSc...''),
          call X (petsc_configure install_dir),
          call X [''make'', ''all'', ''test''],
          ok (print_message ''Installing PETSc...''),
          call X [''make'', ''install''],
          ok (environ_set ''PETSC_DIR'' install_dir),
          ok (print_message ''Cleaning up working directory...''),
          os_chdir ''../'',
          shutil_rmtree X petsc_folder]"

definition slepc_url :: string where
  "slepc_url = ''http://slepc.upv.es/download/distrib/slepc-'' @ SLEPC_VERSION @ ''.tar.gz''"

definition slepc_fname :: string where
  "slepc_fname = ''slepc-'' @ SLEPC_VERSION @ ''.tar.gz''"

definition slepc_folder :: string where
  "slepc_folder = ''slepc-'' @ SLEPC_VERSION"

definition install_slepc :: "externals \<Rightarrow> string \<Rightarrow> world \<Rightarrow> outcome" where
  "install_slepc X install_dir =
     seq [ok (\<lambda>w. if ''SLEPC_DIR'' \<in> dom (environ w) then environ_del ''SLEPC_DIR'' w else w),
          ok (print_message ''Downloading SLEPc source...''),
          download X slepc_url slepc_fname,
          call X [''tar'', ''xvzf'', slepc_fname],
          ok (print_message ''Compiling SLEPc...''),
          os_chdir slepc_folder,
          call X [''./configure'', ''--prefix='' @ install_dir],
          call X [''make'', ''all''],
          call X [''make'', ''install''],
          call X [''make'', ''test''],
          os_chdir ''../'',
          shutil_rmtree X slepc_folder,
          os_remove X slepc_fname]"

subsection \<open>install_begin, install_end, install_deps\<close>

definition install_begin :: "string \<Rightarrow> world \<Rightarrow> outcome" where
  "install_begin build_dir = os_chdir build_dir"

definition install_end :: "externals \<Rightarrow> string \<Rightarrow> string \<Rightarrow> world \<Rightarrow> outcome" where
  "install_end X start_dir build_dir =
     seq [os_chdir start_dir,
          (\<lambda>w. if os_path_exists build_dir w then shutil_rmtree X build_dir w else Inr w)]"

text \<open>The paths \<open>install_deps\<close> derives from the home directory and \<open>args.prefix\<close>
  (\<open>None\<close> when the flag is not given).\<close>

definition install_dir_of :: "string \<Rightarrow> string option \<Rightarrow> string" where
  "install_dir_of home_dir args_prefix =
     (case args_prefix of None \<Rightarrow> home_dir @ ''/.pymode/'' | Some p \<Rightarrow> p)"

definition include_dir_of :: "string \<Rightarrow> string" where
  "include_dir_of install_dir = install_dir @ ''include/''"

definition lib_dir_of :: "string \<Rightarrow> string" where
  "lib_dir_of install_dir = install_dir @ ''lib/''"

definition build_dir :: string where
  "build_dir = ''./build/''"

text \<open>\<open>if not os.path.exists(d): os.makedirs(d)\<close>.\<close>

definition ensure_dir :: "externals \<Rightarrow> string \<Rightarrow> world \<Rightarrow> outcome" where
  "ensure_dir X d w = (if \<not> os_path_exists d w then os_makedirs X d w else Inr w)"

text \<open>Lines 204 to 223 of \<open>install_deps\<close>: the install directory and its two
  subdirectories.\<close>

definition setup_install_dirs :: "externals \<Rightarrow> string \<Rightarrow> string option \<Rightarrow> world \<Rightarrow> outcome" where
  "setup_install_dirs X home_dir args_prefix =
     (let install_dir = install_dir_of home_dir args_prefix in
      seq [ok (\<lambda>w. case args_prefix of None \<Rightarrow> w | Some p \<Rightarrow> py_print install_dir w),
           ensure_dir X install_dir,
           ensure_dir X (include_dir_of install_dir),
           ensure_dir X (lib_dir_of install_dir)])"

text \<open>The body of the \<open>try\<close> statement and its handler.\<close>

definition install_body :: "externals \<Rightarrow> string \<Rightarrow> string option \<Rightarrow> world \<Rightarrow> outcome" where
  "install_body X home_dir args_prefix =
     (let install_dir = install_dir_of home_dir args_prefix in
      seq [install_petsc X install_dir,
           install_slepc X install_dir,
           write_deps_file X home_dir (include_dir_of install_dir) install_dir])"

definition handler :: "externals \<Rightarrow> string \<Rightarrow> pyerror \<Rightarrow> world \<Rightarrow> outcome" where
  "handler X current_dir e =
     seq [ok (py_print (str_of e)),
          install_end X current_dir build_dir]"

definition finished :: string where
  "finished = ''Finished installing pymode dependencies!''"

definition install_deps :: "externals \<Rightarrow> string \<Rightarrow> string option \<Rightarrow> world \<Rightarrow> outcome" where
  "install_deps X home_dir args_prefix =
     seq [Logger_init X ''install.log'',
          setup_install_dirs X home_dir args_prefix,
          (\<lambda>w. let current_dir = os_getcwd w in
             seq [ensure_dir X build_dir,
                  install_begin build_dir,
                  try_except (install_body X home_dir args_prefix) (handler X current_dir),
                  ok (print_message finished)] w)]"

subsection \<open>Observing a run\<close>

text \<open>The exception a run ended with, if any.\<close>

definition raised :: "outcome \<Rightarrow> pyerror option" where
  "raised r = (case r of Inl (e, w) \<Rightarrow> Some e | Inr w \<Rightarrow> None)"

text \<open>The statements of \<open>install_deps\<close> that come before its \<open>try\<close> statement.\<close>

definition prepare :: "externals \<Rightarrow> string \<Rightarrow> string option \<Rightarrow> world \<Rightarrow> outcome" where
  "prepare X home_dir args_prefix =
     seq [Logger_init X ''install.log'',
          setup_install_dirs X home_dir args_prefix,
          ensure_dir X build_dir,
          install_begin build_dir]"

subsection \<open>Sample surroundings\<close>

text \<open>
  A small machine on which the script can be run by evaluation: a home directory with a
  manifest of an earlier run, a working directory with an old log, the three variables
  set, a server that answers, and a \<open>tar\<close> that unpacks \<open>name.tar.gz\<close> into the
  directory \<open>name\<close>; every other tool does nothing.
\<close>

definition sample_tree :: "path \<Rightarrow> node option" where
  "sample_tree =
     Map.empty([] \<mapsto> Dir, [''home''] \<mapsto> Dir, [''home'', ''u''] \<mapsto> Dir,
       [''home'', ''u'', ''.pymode_deps''] \<mapsto> File ''PETSC_DIR=/stale/'',
       [''work''] \<mapsto> Dir, [''work'', ''install.log''] \<mapsto> File ''old log'')"

definition sample_environ :: "string \<Rightarrow> string option" where
  "sample_environ =
     Map.empty(''PETSC_DIR'' \<mapsto> ''/old/petsc'', ''PETSC_ARCH'' \<mapsto> ''arch-old'',
       ''SLEPC_DIR'' \<mapsto> ''/old/slepc'')"

definition sample_world :: world where
  "sample_world =
     \<lparr>cwd = [''work''], fs = sample_tree, environ = sample_environ,
      terminal = [], logfile = [], log_handle = None, trace = []\<rparr>"

definition sample_run ::
  "string list \<Rightarrow> path \<Rightarrow> (string \<Rightarrow> string option) \<Rightarrow> (path \<Rightarrow> node option)
     \<Rightarrow> pyerror + (path \<Rightarrow> node option)" where
  "sample_run args wd env tree =
     (case args of
        [tool, flags, archive] \<Rightarrow>
          if tool = ''tar'' then Inr (tree(wd @ [take (length archive - 7) archive] \<mapsto> Dir))
          else Inr tree
      | _ \<Rightarrow> Inr tree)"

definition sample_externals :: externals where
  "sample_externals =
     \<lparr>http_get = (\<lambda>url env. Inr ''archive''), run = sample_run, denied = (\<lambda>p. False)\<rparr>"

text \<open>The same machine without a network.\<close>

definition offline :: externals where
  "offline = sample_externals\<lparr>http_get := (\<lambda>url env. Inl (PyError ExternalError ''no route to host''))\<rparr>"

text \<open>What a run added to the history.\<close>

definition new_events :: "world \<Rightarrow> outcome \<Rightarrow> event list" where
  "new_events w r = drop (length (trace w)) (trace (final r))"



text \<open>A request or a child process that saw none of the variables \<open>ks\<close> set.\<close>

fun unset_in :: "string list \<Rightarrow> event \<Rightarrow> bool" where
  "unset_in ks (HttpGet url env) = list_all (\<lambda>k. env k = None) ks"
| "unset_in ks (Call args env) = list_all (\<lambda>k. env k = None) ks"
| "unset_in ks (Open_file name mode) = True"

text \<open>
  A step that, started in an environment satisfying \<open>J\<close>, ends (normally or by an
  exception) in such an environment and has extended the history by entries satisfying
  \<open>P\<close> only.
\<close>

definition emits ::
  "((string \<Rightarrow> string option) \<Rightarrow> bool) \<Rightarrow> (event \<Rightarrow> bool) \<Rightarrow> (world \<Rightarrow> outcome) \<Rightarrow> bool" where
  "emits J P f =
     (\<forall>w. J (environ w) \<longrightarrow>
        J (environ (final (f w)))
        \<and> (\<exists>evs. trace (final (f w)) = trace w @ evs \<and> list_all P evs))"

text \<open>What \<open>print_message s\<close> adds to the standard output.\<close>

definition message_line :: "string \<Rightarrow> string" where
  "message_line s = escape @ ''[92m'' @ s @ escape @ ''[0m'' @ newline"

text \<open>The sample machine with a home directory in which \<open>.pymode\<close> cannot be created.\<close>

definition read_only_home :: externals where
  "read_only_home = sample_externals\<lparr>denied := (\<lambda>p. p = [''home'', ''u'', ''.pymode''])\<rparr>"


text \<open>A later run: the build directory of an earlier run is still there, it cannot be
  removed, and the network is down.\<close>

definition rerun_world :: world where
  "rerun_world = sample_world\<lparr>fs := sample_tree([''work'', ''build''] \<mapsto> Dir)\<rparr>"

definition locked_build :: externals where
  "locked_build = offline\<lparr>denied := (\<lambda>p. p = [''work'', ''build''])\<rparr>"

section \<open>Path names: resolution\<close>

lemma split_path_not_Nil: "split_path s \<noteq> []"
  by (induction s) (auto split: list.splits)

lemma split_path_append:
  "CHR ''/'' \<notin> set c \<Longrightarrow>
     split_path (c @ s) = (case split_path s of [] \<Rightarrow> [] | x # xs \<Rightarrow> (c @ x) # xs)"
  by (induction c) (auto simp: split_path_not_Nil split: list.splits)

lemma split_path_string:
  "list_all plain p \<Longrightarrow>
     split_path (concat (map (\<lambda>c. CHR ''/'' # c) p)) = (if p = [] then [[]] else [] # p)"
proof (induction p)
  case Nil
  then show ?case by simp
next
  case (Cons c p)
  from Cons.prems have pc: "plain c" and p: "list_all plain p"
    by simp_all
  from pc have c: "CHR ''/'' \<notin> set c"
    by (simp add: plain_def)
  show ?case
    using Cons.IH[OF p] by (simp add: split_path_append[OF c])
qed

lemma walk_plain: "list_all plain cs \<Longrightarrow> walk p cs = p @ cs"
  by (induction cs arbitrary: p) (auto simp: plain_def)

lemma resolve_path_string: "list_all plain p \<Longrightarrow> resolve wd (path_string p) = p"
proof (cases p)
  case Nil
  then show ?thesis by (simp add: resolve_def path_string_def)
next
  case (Cons c cs)
  assume pl: "list_all plain p"
  have "path_string p = CHR ''/'' # c @ concat (map (\<lambda>c. CHR ''/'' # c) cs)"
    using Cons by (simp add: path_string_def)
  moreover have "split_path (path_string p) = [] # p"
    using split_path_string[OF pl] Cons by (simp add: path_string_def)
  ultimately show ?thesis
    using walk_plain[OF pl, of "[]"] by (simp add: resolve_def)
qed

lemma resolve_build_dir: "resolve c build_dir = c @ [''build'']"
  by (simp add: resolve_def build_dir_def)

lemma resolve_parent: "resolve c ''../'' = butlast c"
  by (simp add: resolve_def)

lemma resolve_petsc_folder: "resolve c petsc_folder = c @ [''petsc-3.12.1'']"
  by (simp add: resolve_def petsc_folder_def PETSC_VERSION_def)

lemma resolve_slepc_folder: "resolve c slepc_folder = c @ [''slepc-3.12.1'']"
  by (simp add: resolve_def slepc_folder_def SLEPC_VERSION_def)

lemma resolve_petsc_fname: "resolve c petsc_fname = c @ [''petsc-3.12.1.tar.gz'']"
  by (simp add: resolve_def petsc_fname_def PETSC_VERSION_def)

lemma resolve_slepc_fname: "resolve c slepc_fname = c @ [''slepc-3.12.1.tar.gz'']"
  by (simp add: resolve_def slepc_fname_def SLEPC_VERSION_def)

section \<open>Outcomes, the Logger and the manifest\<close>

lemma succeeded_Inr [simp]: "succeeded (Inr w)" and succeeded_Inl [simp]: "\<not> succeeded (Inl e)"
  by (simp_all add: succeeded_def)

lemma final_Inr [simp]: "final (Inr w) = w" and final_Inl [simp]: "final (Inl (e, w)) = w"
  by (simp_all add: final_def)

lemma succeededE: "succeeded r \<Longrightarrow> (\<And>w. r = Inr w \<Longrightarrow> P) \<Longrightarrow> P"
  by (cases r) (simp_all add: succeeded_def)

lemma raise_not_Inr [simp]: "raise c m w \<noteq> Inr w'"
  by (simp add: raise_def)

lemma foldl_Logger_write:
  "foldl (\<lambda>w m. Logger_write m w) w msgs =
     w\<lparr>terminal := terminal w @ concat msgs, logfile := logfile w @ concat msgs\<rparr>"
  by (induction msgs arbitrary: w) (simp_all add: Logger_write_def)

lemma open_append_Inr:
  assumes "open_append X name w = Inr w'"
  shows "logfile w' = (case fs w (resolve (cwd w) name) of Some (File c) \<Rightarrow> c | _ \<Rightarrow> [])"
    and "terminal w' = terminal w" and "cwd w' = cwd w" and "name \<noteq> []" and "\<not> dir_syntax name"
    and "fs w' (resolve (cwd w) name) = Some (File (logfile w'))"
    and "log_handle w' = Some (resolve (cwd w) name)"
  using assms by (auto simp: open_append_def Let_def split: if_splits)

lemma os_remove_Inr:
  assumes "os_remove X name w = Inr w'"
  shows "fs w' = (fs w)(resolve (cwd w) name := None)" and "cwd w' = cwd w"
    and "terminal w' = terminal w" and "trace w' = trace w" and "environ w' = environ w"
  using assms by (auto simp: os_remove_def Let_def split: if_splits option.splits node.splits)

lemma Logger_init_fresh:
  assumes "Logger_init X log_fname w0 = Inr w"
  shows "logfile w = [] \<and> terminal w = terminal w0
         \<and> log_handle w = Some (resolve (cwd w0) log_fname)
         \<and> fs w (resolve (cwd w0) log_fname) = Some (File [])"
proof (cases "os_path_isfile log_fname w0")
  case True
  with assms obtain w1 where r: "os_remove X log_fname w0 = Inr w1"
    and a: "open_append X log_fname w1 = Inr w"
    by (auto simp: Logger_init_def split: sum.splits)
  from os_remove_Inr[OF r] have "fs w1 (resolve (cwd w1) log_fname) = None"
    and "terminal w1 = terminal w0" and "cwd w1 = cwd w0"
    by simp_all
  with open_append_Inr[OF a] show ?thesis by simp
next
  case False
  with assms have a: "open_append X log_fname w0 = Inr w"
    by (auto simp: Logger_init_def split: sum.splits)
  from open_append_Inr(4,5)[OF a] False have "\<not> is_file (fs w0 (resolve (cwd w0) log_fname))"
    by (simp add: os_path_isfile_def)
  then have "logfile w = []"
    using open_append_Inr(1)[OF a] by (auto simp: is_file_def split: option.splits node.splits)
  with open_append_Inr(2,6,7)[OF a] show ?thesis
    by simp
qed

text \<open>
  Claim C9 (amended). After the Logger has been constructed, any sequence of writes to
  the redirected standard output has appended the concatenation of the messages, in
  order, to what the original terminal stream had received, and has handed the same
  concatenation to the file object of the log, which held nothing before. The Logger
  never flushes that object: the log file holds exactly the concatenation once the
  object is flushed at the end of the process.
\<close>

theorem logger_mirrors_writes:
  assumes "succeeded (Logger_init X log_fname w0)"
  shows "terminal (foldl (\<lambda>w m. Logger_write m w) (final (Logger_init X log_fname w0)) msgs)
           = terminal w0 @ concat msgs
       \<and> logfile (foldl (\<lambda>w m. Logger_write m w) (final (Logger_init X log_fname w0)) msgs)
           = concat msgs
       \<and> fs (flush_log
               (foldl (\<lambda>w m. Logger_write m w) (final (Logger_init X log_fname w0)) msgs))
            (resolve (cwd w0) log_fname)
           = Some (File (concat msgs))"
proof -
  from assms obtain w where w: "Logger_init X log_fname w0 = Inr w"
    by (rule succeededE)
  from Logger_init_fresh[OF w] show ?thesis
    by (simp add: w foldl_Logger_write flush_log_def)
qed

theorem logger_mirrors_writes_witness:
  "succeeded (Logger_init sample_externals ''install.log'' sample_world)
   \<and> fs sample_world [''work'', ''install.log''] = Some (File ''old log'')
   \<and> terminal (foldl (\<lambda>w m. Logger_write m w)
        (final (Logger_init sample_externals ''install.log'' sample_world)) [''ab'', [], ''c''])
      = ''abc''
   \<and> fs (flush_log (foldl (\<lambda>w m. Logger_write m w)
        (final (Logger_init sample_externals ''install.log'' sample_world)) [''ab'', [], ''c'']))
        [''work'', ''install.log'']
      = Some (File ''abc'')"
proof -
  have h: "succeeded (Logger_init sample_externals ''install.log'' sample_world)"
    by code_simp
  have f: "fs sample_world [''work'', ''install.log''] = Some (File ''old log'')"
    by code_simp
  have t: "terminal sample_world = []"
    by (simp add: sample_world_def)
  have r: "resolve (cwd sample_world) ''install.log'' = [''work'', ''install.log'']"
    by code_simp
  have e: "fs (flush_log (foldl (\<lambda>w m. Logger_write m w)
        (final (Logger_init sample_externals ''install.log'' sample_world)) [''ab'', [], ''c'']))
        [''work'', ''install.log''] = Some (File ''abc'')"
    by code_simp
  from logger_mirrors_writes[OF h, of "[''ab'', [], ''c'']"] h f t r e show ?thesis
    by simp
qed

theorem log_file_lags_counterexample:
  "succeeded (Logger_init sample_externals ''install.log'' sample_world)
   \<and> terminal (foldl (\<lambda>w m. Logger_write m w)
        (final (Logger_init sample_externals ''install.log'' sample_world)) [''ab'', [], ''c''])
      = ''abc''
   \<and> fs (foldl (\<lambda>w m. Logger_write m w)
        (final (Logger_init sample_externals ''install.log'' sample_world)) [''ab'', [], ''c''])
        [''work'', ''install.log'']
      = Some (File [])"
  by code_simp

lemma write_file_Inr:
  assumes "write_file X name mode content w = Inr w'"
  shows "w' = w\<lparr>trace := trace w @ [Open_file name mode],
                 fs := (fs w)(resolve (cwd w) name \<mapsto> File content)\<rparr>"
    and "\<not> is_dir (fs w (resolve (cwd w) name))"
  using assms by (auto simp: write_file_def Let_def split: if_splits)

text \<open>
  Claim C4. When \<open>write_deps_file\<close> completes, the file \<open>home_dir/.pymode_deps\<close> holds
  exactly the three lines \<open>PETSC_DIR=install_dir\<close>, \<open>PETSC_ARCH=\<close> and
  \<open>SLEPC_DIR=install_dir\<close>, in that order, whatever the file held before.
\<close>

theorem write_deps_file_content:
  assumes "succeeded (write_deps_file X home_dir include_dir install_dir w)"
  shows "fs (final (write_deps_file X home_dir include_dir install_dir w))
           (resolve (cwd w) (home_dir @ ''/.pymode_deps''))
         = Some (File (concat (map (\<lambda>line. line @ newline)
             [''PETSC_DIR='' @ install_dir, ''PETSC_ARCH='', ''SLEPC_DIR='' @ install_dir])))"
proof -
  from assms obtain w' where w': "write_deps_file X home_dir include_dir install_dir w = Inr w'"
    by (rule succeededE)
  then have "write_file X (dep_fname home_dir) ''w'' (deps_content install_dir) w = Inr w'"
    by (simp add: write_deps_file_def)
  from write_file_Inr(1)[OF this] show ?thesis
    by (simp add: w' dep_fname_def pymode_deps_def deps_content_def)
qed

theorem write_deps_file_content_witness:
  "succeeded (write_deps_file sample_externals ''/home/u'' ''/x/y/include/'' ''/x/y/'' sample_world)
   \<and> fs sample_world [''home'', ''u'', ''.pymode_deps''] = Some (File ''PETSC_DIR=/stale/'')
   \<and> fs (final (write_deps_file sample_externals ''/home/u'' ''/x/y/include/'' ''/x/y/''
         sample_world)) [''home'', ''u'', ''.pymode_deps'']
      = Some (File (''PETSC_DIR=/x/y/'' @ newline @ ''PETSC_ARCH='' @ newline
                     @ ''SLEPC_DIR=/x/y/'' @ newline))"
proof -
  have h: "succeeded (write_deps_file sample_externals ''/home/u'' ''/x/y/include/'' ''/x/y/''
             sample_world)"
    by code_simp
  have f: "fs sample_world [''home'', ''u'', ''.pymode_deps''] = Some (File ''PETSC_DIR=/stale/'')"
    by code_simp
  have r: "resolve (cwd sample_world) (''/home/u'' @ ''/.pymode_deps'') = [''home'', ''u'', ''.pymode_deps'']"
    by code_simp
  from write_deps_file_content[OF h] h f r show ?thesis
    by simp
qed

text \<open>
  Claim C6. Without a prefix the install root is \<open>home_dir/.pymode/\<close>; with a prefix it
  is the prefix as given; the include and the library directory are the install root
  followed by \<open>include/\<close> and \<open>lib/\<close>, by concatenation of strings.
\<close>

theorem install_paths:
  "install_dir_of home_dir None = home_dir @ ''/.pymode/''
   \<and> install_dir_of home_dir (Some p) = p
   \<and> include_dir_of (install_dir_of home_dir a) = install_dir_of home_dir a @ ''include/''
   \<and> lib_dir_of (install_dir_of home_dir a) = install_dir_of home_dir a @ ''lib/''"
  by (simp add: install_dir_of_def include_dir_of_def lib_dir_of_def)

section \<open>Statements in sequence and the library calls\<close>

lemma seq_Cons_Inr:
  "seq (f # rest) w = Inr w' \<longleftrightarrow> (\<exists>w1. f w = Inr w1 \<and> seq rest w1 = Inr w')"
  by (cases "f w") auto

lemma seq_ConsE:
  assumes "seq (f # rest) w = Inr w'"
  obtains w1 where "f w = Inr w1" and "seq rest w1 = Inr w'"
  using assms by (cases "f w") auto

lemma seq_NilE:
  assumes "seq [] w = Inr w'"
  obtains "w' = w"
  using assms by simp

lemma seq_append:
  "seq (xs @ ys) w = (case seq xs w of Inl e \<Rightarrow> Inl e | Inr w' \<Rightarrow> seq ys w')"
  by (induction xs arbitrary: w) (auto split: sum.splits)

lemma ok_Inr [simp]: "ok g w = Inr w' \<longleftrightarrow> w' = g w"
  by (auto simp: ok_def)

lemma Logger_write_frame [simp]:
  "cwd (Logger_write m w) = cwd w" "fs (Logger_write m w) = fs w"
  "environ (Logger_write m w) = environ w" "trace (Logger_write m w) = trace w"
  "terminal (Logger_write m w) = terminal w @ m"
  by (simp_all add: Logger_write_def)

lemma py_print_frame [simp]:
  "cwd (py_print s w) = cwd w" "fs (py_print s w) = fs w"
  "environ (py_print s w) = environ w" "trace (py_print s w) = trace w"
  "terminal (py_print s w) = terminal w @ s @ newline"
  by (simp_all add: py_print_def)

lemma print_message_frame [simp]:
  "cwd (print_message s w) = cwd w" "fs (print_message s w) = fs w"
  "environ (print_message s w) = environ w" "trace (print_message s w) = trace w"
  "terminal (print_message s w) = terminal w @ escape @ ''[92m'' @ s @ escape @ ''[0m'' @ newline"
  by (simp_all add: print_message_def)

lemma os_path_exists_cong:
  "cwd w' = cwd w \<Longrightarrow> fs w' = fs w \<Longrightarrow> os_path_exists d w' = os_path_exists d w"
  by (simp add: os_path_exists_def)

lemma os_chdir_Inr:
  assumes "os_chdir name w = Inr w'"
  shows "w' = w\<lparr>cwd := resolve (cwd w) name\<rparr>" and "fs w (resolve (cwd w) name) = Some Dir"
  using assms by (auto simp: os_chdir_def Let_def split: if_splits option.splits node.splits)

lemma shutil_rmtree_Inr:
  assumes "shutil_rmtree X name w = Inr w'"
  shows "w' = w\<lparr>fs := (\<lambda>p. if prefix (resolve (cwd w) name) p then None else fs w p)\<rparr>"
  using assms by (auto simp: shutil_rmtree_def Let_def split: if_splits option.splits node.splits)

lemma os_makedirs_Inr:
  assumes "os_makedirs X name w = Inr w'"
  shows "w' = w\<lparr>fs := (\<lambda>p. if prefix p (resolve (cwd w) name) \<and> fs w p = None then Some Dir
                            else fs w p)\<rparr>"
    and "name \<noteq> []" and "fs w (resolve (cwd w) name) = None"
  using assms by (auto simp: os_makedirs_def Let_def split: if_splits)

lemma call_Inr:
  assumes "call X args w = Inr w'"
  shows "cwd w' = cwd w" and "environ w' = environ w" and "terminal w' = terminal w"
  using assms by (auto simp: call_def Let_def split: sum.splits)

lemma download_Inr:
  assumes "download X url fname w = Inr w'"
  shows "cwd w' = cwd w" and "environ w' = environ w" and "terminal w' = terminal w"
    and "\<exists>c. fs w' = (fs w)(resolve (cwd w) fname \<mapsto> File c)"
  using assms by (auto simp: download_def Let_def dest!: write_file_Inr(1) split: sum.splits)

lemma ensure_dir_Inr:
  assumes "ensure_dir X d w = Inr w'"
  shows "os_path_exists d w'" and "cwd w' = cwd w" and "terminal w' = terminal w"
    and "trace w' = trace w" and "environ w' = environ w"
    and "fs w p \<noteq> None \<Longrightarrow> fs w' p = fs w p"
    and "os_path_exists d w \<Longrightarrow> w' = w"
proof -
  have "os_path_exists d w' \<and> cwd w' = cwd w \<and> terminal w' = terminal w \<and> trace w' = trace w
        \<and> environ w' = environ w \<and> (fs w p \<noteq> None \<longrightarrow> fs w' p = fs w p)
        \<and> (os_path_exists d w \<longrightarrow> w' = w)"
  proof (cases "os_path_exists d w")
    case True
    with assms show ?thesis by (simp add: ensure_dir_def)
  next
    case False
    with assms have m: "os_makedirs X d w = Inr w'"
      by (simp add: ensure_dir_def)
    from os_makedirs_Inr[OF m] False show ?thesis
      by (simp add: os_path_exists_def)
  qed
  then show "os_path_exists d w'" and "cwd w' = cwd w" and "terminal w' = terminal w"
    and "trace w' = trace w" and "environ w' = environ w"
    and "fs w p \<noteq> None \<Longrightarrow> fs w' p = fs w p"
    and "os_path_exists d w \<Longrightarrow> w' = w"
    by simp_all
qed


lemma split_path_slash:
  "split_path (a @ CHR ''/'' # s) = split_path a @ split_path s"
  by (induction a) (auto simp: split_path_not_Nil split: list.splits)

lemma walk_append: "walk p (xs @ ys) = walk (walk p xs) ys"
  by (induction xs arbitrary: p) auto

lemma resolve_alt:
  "resolve wd name =
     walk (if name \<noteq> [] \<and> hd name = CHR ''/'' then [] else wd) (split_path name)"
  by (cases name) (simp_all add: resolve_def)

lemma resolve_child:
  assumes "dir_syntax d" and "plain c"
  shows "resolve wd (d @ c @ ''/'') = resolve wd d @ [c]"
proof -
  from assms(1) obtain a where d: "d = a @ ''/''"
    by (cases d rule: rev_cases) (auto simp: dir_syntax_def)
  from assms(2) have "split_path c = [c]"
    using split_path_append[of c "[]"] by (simp add: plain_def)
  then have c: "split_path (c @ ''/'') = [c, []]"
    by (simp add: split_path_slash)
  have 1: "split_path d = split_path a @ [[]]"
    by (simp add: d split_path_slash)
  have 2: "split_path (d @ c @ ''/'') = split_path a @ [c, []]"
    using c by (simp add: d split_path_slash)
  have 3: "walk p (split_path a @ [c, []]) = walk p (split_path a @ [[]]) @ [c]" for p
    using assms(2) by (simp add: walk_append plain_def)
  have 4: "d \<noteq> []" "hd (d @ c @ ''/'') = hd d"
    by (simp_all add: d hd_append)
  show ?thesis
    unfolding resolve_alt 1 2 3 using 4 by simp
qed

lemma os_path_exists_mono:
  assumes "os_path_exists d w" and "cwd w' = cwd w"
    and "\<And>p. fs w p \<noteq> None \<Longrightarrow> fs w' p = fs w p"
  shows "os_path_exists d w'"
proof -
  from assms(1) have "fs w (resolve (cwd w) d) \<noteq> None"
    by (auto simp: os_path_exists_def split: option.splits)
  from assms(3)[OF this] assms(1,2) show ?thesis
    by (simp add: os_path_exists_def)
qed

lemma ensure_dir_present: "os_path_exists d w \<Longrightarrow> ensure_dir X d w = Inr w"
  by (simp add: ensure_dir_def)

lemma setup_install_dirs_Inr:
  assumes "setup_install_dirs X home_dir args_prefix w = Inr w'"
  shows "os_path_exists (install_dir_of home_dir args_prefix) w'"
    and "os_path_exists (include_dir_of (install_dir_of home_dir args_prefix)) w'"
    and "os_path_exists (lib_dir_of (install_dir_of home_dir args_prefix)) w'"
    and "cwd w' = cwd w" and "trace w' = trace w" and "environ w' = environ w"
proof -
  let ?d = "install_dir_of home_dir args_prefix"
  from assms obtain wa wb wc
    where a: "wa = (case args_prefix of None \<Rightarrow> w | Some p \<Rightarrow> py_print ?d w)"
      and b: "ensure_dir X ?d wa = Inr wb"
      and c: "ensure_dir X (include_dir_of ?d) wb = Inr wc"
      and d: "ensure_dir X (lib_dir_of ?d) wc = Inr w'"
    unfolding setup_install_dirs_def Let_def by (elim seq_ConsE) auto
  from a have wa: "cwd wa = cwd w" "trace wa = trace w" "environ wa = environ w"
    by (simp_all split: option.splits)
  note B = ensure_dir_Inr[OF b] and C = ensure_dir_Inr[OF c] and D = ensure_dir_Inr[OF d]
  have "os_path_exists ?d wc"
    using B(1) C(2) C(6) by (rule os_path_exists_mono)
  then show "os_path_exists ?d w'"
    using D(2) D(6) by (rule os_path_exists_mono)
  show "os_path_exists (include_dir_of ?d) w'"
    using C(1) D(2) D(6) by (rule os_path_exists_mono)
  show "os_path_exists (lib_dir_of ?d) w'"
    by (rule D(1))
  show "cwd w' = cwd w" "trace w' = trace w" "environ w' = environ w"
    using wa B C D by simp_all
qed

lemma setup_install_dirs_again:
  assumes "os_path_exists (install_dir_of home_dir args_prefix) w"
    and "os_path_exists (include_dir_of (install_dir_of home_dir args_prefix)) w"
    and "os_path_exists (lib_dir_of (install_dir_of home_dir args_prefix)) w"
  shows "setup_install_dirs X home_dir args_prefix w
           = Inr (case args_prefix of None \<Rightarrow> w
                  | Some p \<Rightarrow> py_print (install_dir_of home_dir args_prefix) w)"
proof -
  let ?d = "install_dir_of home_dir args_prefix"
  let ?w = "case args_prefix of None \<Rightarrow> w | Some p \<Rightarrow> py_print ?d w"
  have same: "cwd ?w = cwd w" "fs ?w = fs w"
    by (simp_all split: option.splits)
  have "os_path_exists ?d ?w" "os_path_exists (include_dir_of ?d) ?w"
    "os_path_exists (lib_dir_of ?d) ?w"
    using assms by (simp_all add: os_path_exists_cong[OF same])
  then show ?thesis
    by (simp add: setup_install_dirs_def Let_def ok_def ensure_dir_present)
qed

text \<open>
  The directory step of \<open>install_deps\<close> is idempotent: whenever it completes, the three
  names it derived are present, and a second run on the result raises nothing and leaves
  the file system as it is. For an install root that ends in a slash, as the default
  does, the two derived names are its children \<open>include\<close> and \<open>lib\<close>.
\<close>

lemma setup_install_dirs_idempotent:
  assumes "succeeded (setup_install_dirs X home_dir args_prefix w)"
  shows "os_path_exists (install_dir_of home_dir args_prefix)
           (final (setup_install_dirs X home_dir args_prefix w))
       \<and> os_path_exists (install_dir_of home_dir args_prefix @ ''include/'')
           (final (setup_install_dirs X home_dir args_prefix w))
       \<and> os_path_exists (install_dir_of home_dir args_prefix @ ''lib/'')
           (final (setup_install_dirs X home_dir args_prefix w))
       \<and> succeeded (setup_install_dirs X home_dir args_prefix
           (final (setup_install_dirs X home_dir args_prefix w)))
       \<and> fs (final (setup_install_dirs X home_dir args_prefix
           (final (setup_install_dirs X home_dir args_prefix w))))
         = fs (final (setup_install_dirs X home_dir args_prefix w))
       \<and> (dir_syntax (install_dir_of home_dir args_prefix) \<longrightarrow>
            resolve (cwd w) (install_dir_of home_dir args_prefix @ ''include/'')
              = resolve (cwd w) (install_dir_of home_dir args_prefix) @ [''include'']
          \<and> resolve (cwd w) (install_dir_of home_dir args_prefix @ ''lib/'')
              = resolve (cwd w) (install_dir_of home_dir args_prefix) @ [''lib''])"
proof -
  let ?d = "install_dir_of home_dir args_prefix"
  from assms obtain w1 where w1: "setup_install_dirs X home_dir args_prefix w = Inr w1"
    by (rule succeededE)
  note S = setup_install_dirs_Inr[OF w1]
  have again: "setup_install_dirs X home_dir args_prefix w1
                 = Inr (case args_prefix of None \<Rightarrow> w1 | Some p \<Rightarrow> py_print ?d w1)"
    using S(1-3) by (rule setup_install_dirs_again)
  have kids: "resolve (cwd w) (?d @ ''include/'') = resolve (cwd w) ?d @ [''include'']
              \<and> resolve (cwd w) (?d @ ''lib/'') = resolve (cwd w) ?d @ [''lib'']"
    if "dir_syntax ?d"
    using resolve_child[OF that, of "''include''"] resolve_child[OF that, of "''lib''"]
    by (simp add: plain_def)
  show ?thesis
    using S(1-3) kids
    by (simp add: w1 again include_dir_of_def lib_dir_of_def split: option.splits)
qed

lemma setup_install_dirs_idempotent_sample:
  "succeeded (setup_install_dirs sample_externals ''/home/u'' None sample_world)
   \<and> fs sample_world [''home'', ''u'', ''.pymode''] = None
   \<and> fs (final (setup_install_dirs sample_externals ''/home/u'' None sample_world))
        [''home'', ''u'', ''.pymode'', ''include''] = Some Dir
   \<and> os_path_exists (''/home/u/.pymode/'' @ ''lib/'')
        (final (setup_install_dirs sample_externals ''/home/u'' None sample_world))
   \<and> succeeded (setup_install_dirs sample_externals ''/home/u'' None
        (final (setup_install_dirs sample_externals ''/home/u'' None sample_world)))"
proof -
  have h: "succeeded (setup_install_dirs sample_externals ''/home/u'' None sample_world)"
    by code_simp
  have a: "fs sample_world [''home'', ''u'', ''.pymode''] = None"
    by code_simp
  have b: "fs (final (setup_install_dirs sample_externals ''/home/u'' None sample_world))
        [''home'', ''u'', ''.pymode'', ''include''] = Some Dir"
    by code_simp
  have d: "install_dir_of ''/home/u'' None = ''/home/u/.pymode/''"
    by (simp add: install_dir_of_def)
  from setup_install_dirs_idempotent[OF h] have
    "os_path_exists (''/home/u/.pymode/'' @ ''lib/'')
        (final (setup_install_dirs sample_externals ''/home/u'' None sample_world))"
    and "succeeded (setup_install_dirs sample_externals ''/home/u'' None
        (final (setup_install_dirs sample_externals ''/home/u'' None sample_world)))"
    unfolding d by blast+
  with h a b show ?thesis
    by blast
qed

text \<open>
  Claim C8. The step is to create the install root and its subdirectories \<open>include\<close>
  and \<open>lib\<close>. It does for the default root and for every root that ends in a slash
  (above). With the prefix of the module's own example, \<open>--prefix=/opt/local\<close>, it
  completes without them: \<open>/opt/local/include/\<close> and \<open>/opt/local/lib/\<close> do not exist
  afterwards, and the directories \<open>/opt/localinclude\<close> and \<open>/opt/locallib\<close> have been
  created beside the install root.
\<close>

theorem setup_install_dirs_opt_local:
  "succeeded (setup_install_dirs sample_externals ''/home/u'' (Some ''/opt/local'') sample_world)
   \<and> \<not> os_path_exists ''/opt/local/include/''
        (final (setup_install_dirs sample_externals ''/home/u'' (Some ''/opt/local'') sample_world))
   \<and> \<not> os_path_exists ''/opt/local/lib/''
        (final (setup_install_dirs sample_externals ''/home/u'' (Some ''/opt/local'') sample_world))
   \<and> fs (final (setup_install_dirs sample_externals ''/home/u'' (Some ''/opt/local'') sample_world))
        [''opt'', ''localinclude''] = Some Dir
   \<and> fs (final (setup_install_dirs sample_externals ''/home/u'' (Some ''/opt/local'') sample_world))
        [''opt'', ''locallib''] = Some Dir"
  by code_simp

section \<open>The installers and the run as a whole\<close>

lemma not_prefix_snoc [simp]: "\<not> prefix (b @ [x]) b"
  by (auto dest: prefix_length_le)

lemma call_step:
  assumes "call X args w = Inr w'" and "cwd w = c"
  shows "cwd w' = c"
  using assms call_Inr(1) by simp

lemma download_step:
  assumes "download X url fname w = Inr w'" and "cwd w = c"
  shows "cwd w' = c"
  using assms download_Inr(1) by simp

lemma os_chdir_step:
  assumes "os_chdir name w = Inr w'" and "cwd w = c"
  shows "cwd w' = resolve c name" and "fs w' (resolve c name) = Some Dir"
  using os_chdir_Inr[OF assms(1)] assms(2) by simp_all

lemma shutil_rmtree_step:
  assumes "shutil_rmtree X name w = Inr w'" and "cwd w = c"
  shows "cwd w' = c" and "\<not> prefix (resolve c name) p \<Longrightarrow> fs w' p = fs w p"
  using shutil_rmtree_Inr[OF assms(1)] assms(2) by simp_all

lemma os_remove_step:
  assumes "os_remove X name w = Inr w'" and "cwd w = c"
  shows "cwd w' = c" and "p \<noteq> resolve c name \<Longrightarrow> fs w' p = fs w p"
  using os_remove_Inr[OF assms(1)] assms(2) by simp_all

lemma ok_step:
  assumes "ok g w = Inr w'" and "cwd w = c" and "\<And>v. cwd (g v) = cwd v"
  shows "cwd w' = c"
  using assms by simp

lemma install_petsc_Inr:
  assumes "install_petsc X d w = Inr w'"
  shows "cwd w' = cwd w" and "fs w' (cwd w) = Some Dir"
proof -
  from assms obtain w1 w2 w3 w4 w5 w6 w7 w8 w9 w10 w11 w12 w13 w14
    where 1: "ok (\<lambda>w. if ''PETSC_DIR'' \<in> dom (environ w) then environ_del ''PETSC_DIR'' w else w) w
                = Inr w1"
      and 2: "ok (\<lambda>w. if ''PETSC_ARCH'' \<in> dom (environ w) then environ_del ''PETSC_ARCH'' w else w) w1
                = Inr w2"
      and 3: "ok (print_message ''Downloading PETSc...'') w2 = Inr w3"
      and 4: "download X petsc_url petsc_fname w3 = Inr w4"
      and 5: "call X [''tar'', ''xvzf'', petsc_fname] w4 = Inr w5"
      and 6: "os_chdir petsc_folder w5 = Inr w6"
      and 7: "ok (print_message ''Compiling PETSc...'') w6 = Inr w7"
      and 8: "call X (petsc_configure d) w7 = Inr w8"
      and 9: "call X [''make'', ''all'', ''test''] w8 = Inr w9"
      and 10: "ok (print_message ''Installing PETSc...'') w9 = Inr w10"
      and 11: "call X [''make'', ''install''] w10 = Inr w11"
      and 12: "ok (environ_set ''PETSC_DIR'' d) w11 = Inr w12"
      and 13: "ok (print_message ''Cleaning up working directory...'') w12 = Inr w13"
      and 14: "os_chdir ''../'' w13 = Inr w14"
      and 15: "shutil_rmtree X petsc_folder w14 = Inr w'"
    unfolding install_petsc_def by (elim seq_ConsE seq_NilE, hypsubst, blast)
  have c1: "cwd w1 = cwd w"
    by (rule ok_step[OF 1]) (simp_all add: environ_del_def)
  have c2: "cwd w2 = cwd w"
    by (rule ok_step[OF 2 c1]) (simp add: environ_del_def)
  have c3: "cwd w3 = cwd w"
    by (rule ok_step[OF 3 c2]) simp
  have c4: "cwd w4 = cwd w"
    by (rule download_step[OF 4 c3])
  have c5: "cwd w5 = cwd w"
    by (rule call_step[OF 5 c4])
  have c6: "cwd w6 = cwd w @ [''petsc-3.12.1'']"
    using os_chdir_step(1)[OF 6 c5] by (simp add: resolve_petsc_folder)
  have c7: "cwd w7 = cwd w @ [''petsc-3.12.1'']"
    by (rule ok_step[OF 7 c6]) simp
  have c8: "cwd w8 = cwd w @ [''petsc-3.12.1'']"
    by (rule call_step[OF 8 c7])
  have c9: "cwd w9 = cwd w @ [''petsc-3.12.1'']"
    by (rule call_step[OF 9 c8])
  have c10: "cwd w10 = cwd w @ [''petsc-3.12.1'']"
    by (rule ok_step[OF 10 c9]) simp
  have c11: "cwd w11 = cwd w @ [''petsc-3.12.1'']"
    by (rule call_step[OF 11 c10])
  have c12: "cwd w12 = cwd w @ [''petsc-3.12.1'']"
    by (rule ok_step[OF 12 c11]) (simp add: environ_set_def)
  have c13: "cwd w13 = cwd w @ [''petsc-3.12.1'']"
    by (rule ok_step[OF 13 c12]) simp
  have c14: "cwd w14 = cwd w" and f14: "fs w14 (cwd w) = Some Dir"
    using os_chdir_step[OF 14 c13] by (simp_all add: resolve_parent)
  show "cwd w' = cwd w"
    by (rule shutil_rmtree_step(1)[OF 15 c14])
  show "fs w' (cwd w) = Some Dir"
    using shutil_rmtree_step(2)[OF 15 c14, of "cwd w"] f14
    by (simp add: resolve_petsc_folder)
qed

lemma install_slepc_Inr:
  assumes "install_slepc X d w = Inr w'"
  shows "cwd w' = cwd w" and "fs w' (cwd w) = Some Dir"
proof -
  from assms obtain w1 w2 w3 w4 w5 w6 w7 w8 w9 w10 w11 w12
    where 1: "ok (\<lambda>w. if ''SLEPC_DIR'' \<in> dom (environ w) then environ_del ''SLEPC_DIR'' w else w) w
                = Inr w1"
      and 2: "ok (print_message ''Downloading SLEPc source...'') w1 = Inr w2"
      and 3: "download X slepc_url slepc_fname w2 = Inr w3"
      and 4: "call X [''tar'', ''xvzf'', slepc_fname] w3 = Inr w4"
      and 5: "ok (print_message ''Compiling SLEPc...'') w4 = Inr w5"
      and 6: "os_chdir slepc_folder w5 = Inr w6"
      and 7: "call X [''./configure'', ''--prefix='' @ d] w6 = Inr w7"
      and 8: "call X [''make'', ''all''] w7 = Inr w8"
      and 9: "call X [''make'', ''install''] w8 = Inr w9"
      and 10: "call X [''make'', ''test''] w9 = Inr w10"
      and 11: "os_chdir ''../'' w10 = Inr w11"
      and 12: "shutil_rmtree X slepc_folder w11 = Inr w12"
      and 13: "os_remove X slepc_fname w12 = Inr w'"
    unfolding install_slepc_def by (elim seq_ConsE seq_NilE, hypsubst, blast)
  have c1: "cwd w1 = cwd w"
    by (rule ok_step[OF 1]) (simp_all add: environ_del_def)
  have c2: "cwd w2 = cwd w"
    by (rule ok_step[OF 2 c1]) simp
  have c3: "cwd w3 = cwd w"
    by (rule download_step[OF 3 c2])
  have c4: "cwd w4 = cwd w"
    by (rule call_step[OF 4 c3])
  have c5: "cwd w5 = cwd w"
    by (rule ok_step[OF 5 c4]) simp
  have c6: "cwd w6 = cwd w @ [''slepc-3.12.1'']"
    using os_chdir_step(1)[OF 6 c5] by (simp add: resolve_slepc_folder)
  have c7: "cwd w7 = cwd w @ [''slepc-3.12.1'']"
    by (rule call_step[OF 7 c6])
  have c8: "cwd w8 = cwd w @ [''slepc-3.12.1'']"
    by (rule call_step[OF 8 c7])
  have c9: "cwd w9 = cwd w @ [''slepc-3.12.1'']"
    by (rule call_step[OF 9 c8])
  have c10: "cwd w10 = cwd w @ [''slepc-3.12.1'']"
    by (rule call_step[OF 10 c9])
  have c11: "cwd w11 = cwd w" and f11: "fs w11 (cwd w) = Some Dir"
    using os_chdir_step[OF 11 c10] by (simp_all add: resolve_parent)
  have c12: "cwd w12 = cwd w"
    by (rule shutil_rmtree_step(1)[OF 12 c11])
  have f12: "fs w12 (cwd w) = Some Dir"
    using shutil_rmtree_step(2)[OF 12 c11, of "cwd w"] f11
    by (simp add: resolve_slepc_folder)
  show "cwd w' = cwd w"
    by (rule os_remove_step(1)[OF 13 c12])
  show "fs w' (cwd w) = Some Dir"
    using os_remove_step(2)[OF 13 c12, of "cwd w"] f12
    by (simp add: resolve_slepc_fname)
qed


lemma write_deps_file_Inr:
  assumes "write_deps_file X home_dir inc d w = Inr w'"
  shows "cwd w' = cwd w" and "fs w p = Some Dir \<Longrightarrow> fs w' p = Some Dir"
proof -
  from assms have wf: "write_file X (dep_fname home_dir) ''w'' (deps_content d) w = Inr w'"
    by (simp add: write_deps_file_def)
  from write_file_Inr(1)[OF wf] show "cwd w' = cwd w"
    by simp
  assume "fs w p = Some Dir"
  with write_file_Inr[OF wf] show "fs w' p = Some Dir"
    by (auto simp: is_dir_def)
qed

lemma install_body_Inr:
  assumes "install_body X home_dir args_prefix w = Inr w'"
  shows "cwd w' = cwd w" and "fs w' (cwd w) = Some Dir"
proof -
  let ?d = "install_dir_of home_dir args_prefix"
  from assms obtain w1 w2
    where 1: "install_petsc X ?d w = Inr w1"
      and 2: "install_slepc X ?d w1 = Inr w2"
      and 3: "write_deps_file X home_dir (include_dir_of ?d) ?d w2 = Inr w'"
    unfolding install_body_def Let_def by (elim seq_ConsE seq_NilE, hypsubst, blast)
  note P = install_petsc_Inr[OF 1] and S = install_slepc_Inr[OF 2] and W = write_deps_file_Inr[OF 3]
  show "cwd w' = cwd w"
    using P(1) S(1) W(1) by simp
  show "fs w' (cwd w) = Some Dir"
    using W(2)[of "cwd w"] S(2) P(1) by simp
qed

lemma Logger_init_Inr:
  assumes "Logger_init X log_fname w = Inr w'"
  shows "cwd w' = cwd w"
proof -
  from assms obtain w1
    where 1: "(if os_path_isfile log_fname w then os_remove X log_fname w else Inr w) = Inr w1"
      and 2: "open_append X log_fname w1 = Inr w'"
    unfolding Logger_init_def by (elim seq_ConsE seq_NilE, hypsubst, blast)
  from 1 have "cwd w1 = cwd w"
    by (auto dest: os_remove_Inr(2) split: if_splits)
  with open_append_Inr(3)[OF 2] show ?thesis
    by simp
qed

lemma prepare_Inr:
  assumes "prepare X home_dir args_prefix w = Inr w'"
  shows "cwd w' = cwd w @ [''build'']" and "fs w' (cwd w @ [''build'']) = Some Dir"
proof -
  from assms obtain w1 w2 w3
    where 1: "Logger_init X ''install.log'' w = Inr w1"
      and 2: "setup_install_dirs X home_dir args_prefix w1 = Inr w2"
      and 3: "ensure_dir X build_dir w2 = Inr w3"
      and 4: "install_begin build_dir w3 = Inr w'"
    unfolding prepare_def by (elim seq_ConsE seq_NilE, hypsubst, blast)
  have c3: "cwd w3 = cwd w"
    using Logger_init_Inr[OF 1] setup_install_dirs_Inr(4)[OF 2] ensure_dir_Inr(2)[OF 3] by simp
  from 4 have "os_chdir build_dir w3 = Inr w'"
    by (simp add: install_begin_def)
  from os_chdir_step[OF this c3] show "cwd w' = cwd w @ [''build'']"
    and "fs w' (cwd w @ [''build'']) = Some Dir"
    by (simp_all add: resolve_build_dir)
qed

lemma install_deps_prepare:
  "install_deps X home_dir args_prefix w =
     (case prepare X home_dir args_prefix w of
        Inl e \<Rightarrow> Inl e
      | Inr wt \<Rightarrow>
          seq [try_except (install_body X home_dir args_prefix) (handler X (os_getcwd w)),
               ok (print_message finished)] wt)"
proof (cases "Logger_init X ''install.log'' w")
  case (Inl e)
  then show ?thesis by (simp add: install_deps_def prepare_def)
next
  case (Inr w1)
  note L = this
  show ?thesis
  proof (cases "setup_install_dirs X home_dir args_prefix w1")
    case (Inl e)
    with L show ?thesis by (simp add: install_deps_def prepare_def)
  next
    case (Inr w2)
    have "cwd w2 = cwd w"
      using Logger_init_Inr[OF L] setup_install_dirs_Inr(4)[OF Inr] by simp
    then have "os_getcwd w2 = os_getcwd w"
      by (simp add: os_getcwd_def)
    with L Inr show ?thesis
      by (simp add: install_deps_def prepare_def Let_def split: sum.splits)
  qed
qed

lemma handler_Inr:
  assumes "handler X (path_string c0) e w = Inr w'" and "list_all plain c0"
  shows "cwd w' = c0" and "\<not> os_path_exists build_dir w'"
    and "terminal w' = terminal w @ str_of e @ newline"
proof -
  from assms(1) obtain w1 w2
    where 1: "ok (py_print (str_of e)) w = Inr w1"
      and 2: "os_chdir (path_string c0) w1 = Inr w2"
      and 3: "(if os_path_exists build_dir w2 then shutil_rmtree X build_dir w2 else Inr w2) = Inr w'"
    unfolding handler_def install_end_def by (elim seq_ConsE seq_NilE, hypsubst, blast)
  from 1 have w1: "w1 = py_print (str_of e) w"
    by simp
  from os_chdir_Inr(1)[OF 2] have w2: "cwd w2 = c0" "terminal w2 = terminal w1"
    by (simp_all add: resolve_path_string[OF assms(2)])
  have "cwd w' = c0 \<and> \<not> os_path_exists build_dir w' \<and> terminal w' = terminal w2"
  proof (cases "os_path_exists build_dir w2")
    case True
    with 3 have "shutil_rmtree X build_dir w2 = Inr w'"
      by simp
    from shutil_rmtree_Inr[OF this] w2 show ?thesis
      by (simp add: os_path_exists_def)
  next
    case False
    with 3 w2 show ?thesis by simp
  qed
  with w1 w2 show "cwd w' = c0" and "\<not> os_path_exists build_dir w'"
    and "terminal w' = terminal w @ str_of e @ newline"
    by simp_all
qed

lemma raisedE:
  assumes "raised r = Some e"
  obtains w where "r = Inl (e, w)"
  using assms by (cases r) (auto simp: raised_def)

lemma install_deps_caught:
  assumes "prepare X home_dir args_prefix w0 = Inr wt"
    and "install_body X home_dir args_prefix wt = Inl (e, w1)"
  shows "install_deps X home_dir args_prefix w0
           = (case handler X (path_string (cwd w0)) e w1 of
                Inl x \<Rightarrow> Inl x | Inr w2 \<Rightarrow> Inr (print_message finished w2))"
  using assms
  by (simp add: install_deps_prepare try_except_def os_getcwd_def ok_def split: sum.splits)

lemma install_deps_completed:
  assumes "prepare X home_dir args_prefix w0 = Inr wt"
    and "install_body X home_dir args_prefix wt = Inr w1"
  shows "install_deps X home_dir args_prefix w0 = Inr (print_message finished w1)"
  using assms by (simp add: install_deps_prepare try_except_def ok_def)

text \<open>
  Claim C1 (amended). An exception raised inside the \<open>try\<close> statement of \<open>install_deps\<close>
  (by \<open>install_petsc\<close>, \<open>install_slepc\<close> or \<open>write_deps_file\<close>) is caught by the handler,
  which prints it and calls \<open>install_end\<close>. When \<open>install_end\<close> completes, the run ends
  normally with the working directory the process started in, with no \<open>./build/\<close> there,
  and with the error printed once, right before the final message. The handler does not
  cover the statements before the \<open>try\<close> statement.
\<close>

theorem handler_restores:
  assumes "list_all plain (cwd w0)"
    and "succeeded (prepare X home_dir args_prefix w0)"
    and "raised (install_body X home_dir args_prefix (final (prepare X home_dir args_prefix w0)))
           = Some e"
    and "succeeded (install_deps X home_dir args_prefix w0)"
  shows "cwd (final (install_deps X home_dir args_prefix w0)) = cwd w0
       \<and> \<not> os_path_exists build_dir (final (install_deps X home_dir args_prefix w0))
       \<and> terminal (final (install_deps X home_dir args_prefix w0))
           = terminal (final (install_body X home_dir args_prefix
                (final (prepare X home_dir args_prefix w0))))
             @ str_of e @ newline @ message_line finished"
proof -
  from assms(2) obtain wt where wt: "prepare X home_dir args_prefix w0 = Inr wt"
    by (rule succeededE)
  from assms(3) obtain w1 where w1: "install_body X home_dir args_prefix wt = Inl (e, w1)"
    by (rule raisedE) (simp add: wt)
  note run = install_deps_caught[OF wt w1]
  with assms(4) obtain w2 where w2: "handler X (path_string (cwd w0)) e w1 = Inr w2"
    by (cases "handler X (path_string (cwd w0)) e w1") simp_all
  note H = handler_Inr[OF w2 assms(1)]
  have same: "cwd (print_message finished w2) = cwd w2" "fs (print_message finished w2) = fs w2"
    by simp_all
  show ?thesis
    using H by (simp add: run w2 wt w1 os_path_exists_cong[OF same] message_line_def)
qed


theorem handler_restores_witness:
  "list_all plain (cwd sample_world)
   \<and> succeeded (prepare offline ''/home/u'' None sample_world)
   \<and> raised (install_body offline ''/home/u'' None (final (prepare offline ''/home/u'' None sample_world)))
       = Some (PyError ExternalError ''no route to host'')
   \<and> succeeded (install_deps offline ''/home/u'' None sample_world)
   \<and> cwd (final (prepare offline ''/home/u'' None sample_world)) = [''work'', ''build'']
   \<and> cwd (final (install_deps offline ''/home/u'' None sample_world)) = [''work'']
   \<and> \<not> os_path_exists build_dir (final (install_deps offline ''/home/u'' None sample_world))"
proof -
  have h1: "list_all plain (cwd sample_world)"
    by code_simp
  have h2: "succeeded (prepare offline ''/home/u'' None sample_world)"
    by code_simp
  have h3: "raised (install_body offline ''/home/u'' None
              (final (prepare offline ''/home/u'' None sample_world)))
            = Some (PyError ExternalError ''no route to host'')"
    by code_simp
  have h4: "succeeded (install_deps offline ''/home/u'' None sample_world)"
    by code_simp
  have h5: "cwd (final (prepare offline ''/home/u'' None sample_world)) = [''work'', ''build'']"
    by code_simp
  have c: "cwd sample_world = [''work'']"
    by (simp add: sample_world_def)
  from handler_restores[OF h1 h2 h3 h4] c
  have "cwd (final (install_deps offline ''/home/u'' None sample_world)) = [''work'']"
    and "\<not> os_path_exists build_dir (final (install_deps offline ''/home/u'' None sample_world))"
    by simp_all
  with h1 h2 h3 h4 h5 show ?thesis
    by blast
qed

theorem uncaught_before_try_counterexample:
  "raised (setup_install_dirs read_only_home ''/home/u'' None
      (final (Logger_init read_only_home ''install.log'' sample_world)))
     = Some (PyError PermissionError ''/home/u/.pymode/'')
   \<and> raised (install_deps read_only_home ''/home/u'' None sample_world)
     = Some (PyError PermissionError ''/home/u/.pymode/'')
   \<and> terminal (final (install_deps read_only_home ''/home/u'' None sample_world)) = []"
  by code_simp

text \<open>
  Claim C2 (amended). On a run in which both installers and the manifest write complete
  without raising, nothing is executed between the end of the \<open>try\<close> block and the final
  message: \<open>install_end\<close> is not called, and the build workspace directory is still
  present when the run ends.
\<close>

theorem success_keeps_workspace:
  assumes "succeeded (prepare X home_dir args_prefix w0)"
    and "succeeded (install_body X home_dir args_prefix (final (prepare X home_dir args_prefix w0)))"
  shows "succeeded (install_deps X home_dir args_prefix w0)
       \<and> final (install_deps X home_dir args_prefix w0)
           = print_message finished
               (final (install_body X home_dir args_prefix
                  (final (prepare X home_dir args_prefix w0))))
       \<and> fs (final (install_deps X home_dir args_prefix w0)) (resolve (cwd w0) build_dir)
           = Some Dir"
proof -
  from assms(1) obtain wt where wt: "prepare X home_dir args_prefix w0 = Inr wt"
    by (rule succeededE)
  from assms(2) obtain w1 where w1: "install_body X home_dir args_prefix wt = Inr w1"
    by (rule succeededE) (simp add: wt)
  note run = install_deps_completed[OF wt w1]
  from install_body_Inr(2)[OF w1] prepare_Inr(1)[OF wt]
  have "fs w1 (resolve (cwd w0) build_dir) = Some Dir"
    by (simp add: resolve_build_dir)
  then show ?thesis
    by (simp add: run wt w1)
qed

theorem success_keeps_workspace_witness:
  "succeeded (prepare sample_externals ''/home/u'' None sample_world)
   \<and> succeeded (install_body sample_externals ''/home/u'' None
        (final (prepare sample_externals ''/home/u'' None sample_world)))
   \<and> succeeded (install_deps sample_externals ''/home/u'' None sample_world)
   \<and> fs (final (install_deps sample_externals ''/home/u'' None sample_world))
        (resolve (cwd sample_world) build_dir) = Some Dir"
proof -
  have h1: "succeeded (prepare sample_externals ''/home/u'' None sample_world)"
    by code_simp
  have h2: "succeeded (install_body sample_externals ''/home/u'' None
        (final (prepare sample_externals ''/home/u'' None sample_world)))"
    by code_simp
  from success_keeps_workspace[OF h1 h2] h1 h2 show ?thesis
    by blast
qed

theorem workspace_deleted_on_success_counterexample:
  "succeeded (prepare sample_externals ''/home/u'' None sample_world)
   \<and> succeeded (install_body sample_externals ''/home/u'' None
        (final (prepare sample_externals ''/home/u'' None sample_world)))
   \<and> succeeded (install_deps sample_externals ''/home/u'' None sample_world)
   \<and> fs sample_world [''work'', ''build''] = None
   \<and> fs (final (install_deps sample_externals ''/home/u'' None sample_world)) [''work'', ''build'']
       = Some Dir
   \<and> fs (final (install_deps sample_externals ''/home/u'' None sample_world))
        [''work'', ''build'', ''petsc-3.12.1.tar.gz''] = Some (File ''archive'')"
  by code_simp

text \<open>
  Claim C10. The working directory entered by \<open>install_begin\<close> is \<open>./build/\<close> seen from the
  directory the process started in, and differs from it. On a run where the \<open>try\<close> block
  completes, the run ends normally with that build directory as working directory; on a
  run where the block raised and the handler completed, the working directory is again
  the one at program start.
\<close>

theorem cwd_after_run:
  assumes "succeeded (prepare X home_dir args_prefix w0)"
  shows "cwd (final (prepare X home_dir args_prefix w0)) = resolve (cwd w0) build_dir
       \<and> resolve (cwd w0) build_dir \<noteq> cwd w0
       \<and> (succeeded (install_body X home_dir args_prefix (final (prepare X home_dir args_prefix w0)))
            \<longrightarrow> succeeded (install_deps X home_dir args_prefix w0)
              \<and> cwd (final (install_deps X home_dir args_prefix w0)) = resolve (cwd w0) build_dir)
       \<and> (\<not> succeeded (install_body X home_dir args_prefix
                (final (prepare X home_dir args_prefix w0)))
            \<and> succeeded (install_deps X home_dir args_prefix w0) \<and> list_all plain (cwd w0)
            \<longrightarrow> cwd (final (install_deps X home_dir args_prefix w0)) = cwd w0)"
proof -
  from assms obtain wt where wt: "prepare X home_dir args_prefix w0 = Inr wt"
    by (rule succeededE)
  have 1: "cwd wt = resolve (cwd w0) build_dir"
    using prepare_Inr(1)[OF wt] by (simp add: resolve_build_dir)
  have 2: "resolve (cwd w0) build_dir \<noteq> cwd w0"
    by (simp add: resolve_build_dir)
  have 3: "succeeded (install_deps X home_dir args_prefix w0)
           \<and> cwd (final (install_deps X home_dir args_prefix w0)) = resolve (cwd w0) build_dir"
    if "succeeded (install_body X home_dir args_prefix wt)"
  proof -
    from that obtain w1 where w1: "install_body X home_dir args_prefix wt = Inr w1"
      by (rule succeededE)
    from install_deps_completed[OF wt w1] install_body_Inr(1)[OF w1] 1 show ?thesis
      by simp
  qed
  have 4: "cwd (final (install_deps X home_dir args_prefix w0)) = cwd w0"
    if b: "\<not> succeeded (install_body X home_dir args_prefix wt)"
      and d: "succeeded (install_deps X home_dir args_prefix w0)"
      and p: "list_all plain (cwd w0)"
  proof -
    from b obtain e w1 where w1: "install_body X home_dir args_prefix wt = Inl (e, w1)"
      by (cases "install_body X home_dir args_prefix wt") auto
    note run = install_deps_caught[OF wt w1]
    with d obtain w2 where w2: "handler X (path_string (cwd w0)) e w1 = Inr w2"
      by (cases "handler X (path_string (cwd w0)) e w1") simp_all
    from handler_Inr(1)[OF w2 p] show ?thesis
      by (simp add: run w2)
  qed
  from 1 2 3 4 show ?thesis
    by (simp add: wt)
qed


theorem cwd_after_run_witness:
  "succeeded (prepare sample_externals ''/home/u'' None sample_world)
   \<and> succeeded (install_body sample_externals ''/home/u'' None
        (final (prepare sample_externals ''/home/u'' None sample_world)))
   \<and> cwd sample_world = [''work'']
   \<and> cwd (final (install_deps sample_externals ''/home/u'' None sample_world))
       = [''work'', ''build'']
   \<and> succeeded (prepare offline ''/home/u'' None sample_world)
   \<and> \<not> succeeded (install_body offline ''/home/u'' None
        (final (prepare offline ''/home/u'' None sample_world)))
   \<and> succeeded (install_deps offline ''/home/u'' None sample_world)
   \<and> cwd (final (install_deps offline ''/home/u'' None sample_world)) = [''work'']"
proof -
  have h1: "succeeded (prepare sample_externals ''/home/u'' None sample_world)"
    by code_simp
  have h2: "succeeded (install_body sample_externals ''/home/u'' None
        (final (prepare sample_externals ''/home/u'' None sample_world)))"
    by code_simp
  have g1: "succeeded (prepare offline ''/home/u'' None sample_world)"
    by code_simp
  have g2: "\<not> succeeded (install_body offline ''/home/u'' None
        (final (prepare offline ''/home/u'' None sample_world)))"
    by code_simp
  have g3: "succeeded (install_deps offline ''/home/u'' None sample_world)"
    by code_simp
  have p: "list_all plain (cwd sample_world)"
    by code_simp
  have c: "cwd sample_world = [''work'']"
    by (simp add: sample_world_def)
  have b: "resolve [''work''] build_dir = [''work'', ''build'']"
    by (simp add: resolve_build_dir)
  from cwd_after_run[OF h1] h2
  have 1: "cwd (final (install_deps sample_externals ''/home/u'' None sample_world))
             = [''work'', ''build'']"
    by (simp add: c b)
  from cwd_after_run[OF g1] g2 g3 p
  have 2: "cwd (final (install_deps offline ''/home/u'' None sample_world)) = [''work'']"
    by (simp add: c)
  from h1 h2 c 1 g1 g2 g3 2 show ?thesis
    by blast
qed

text \<open>
  Claim C3 (amended). A run that has reached the \<open>try\<close> statement ends normally exactly
  when the block completes, or the block raises and the handler (the print and
  \<open>install_end\<close>) completes; every run that ends normally has printed the final message
  \<open>Finished installing pymode dependencies!\<close> last.
\<close>

theorem finished_message:
  assumes "succeeded (prepare X home_dir args_prefix w0)"
  shows "(succeeded (install_deps X home_dir args_prefix w0)
           \<longleftrightarrow> succeeded (install_body X home_dir args_prefix
                  (final (prepare X home_dir args_prefix w0)))
               \<or> (\<exists>e. raised (install_body X home_dir args_prefix
                          (final (prepare X home_dir args_prefix w0))) = Some e
                      \<and> succeeded (handler X (os_getcwd w0) e
                           (final (install_body X home_dir args_prefix
                              (final (prepare X home_dir args_prefix w0)))))))
       \<and> (succeeded (install_deps X home_dir args_prefix w0)
            \<longrightarrow> (\<exists>out. terminal (final (install_deps X home_dir args_prefix w0))
                        = out @ message_line finished))"
proof -
  from assms obtain wt where wt: "prepare X home_dir args_prefix w0 = Inr wt"
    by (rule succeededE)
  show ?thesis
  proof (cases "install_body X home_dir args_prefix wt")
    case (Inr w1)
    from install_deps_completed[OF wt Inr] show ?thesis
      by (simp add: wt Inr message_line_def)
  next
    case (Inl x)
    then obtain e w1 where w1: "install_body X home_dir args_prefix wt = Inl (e, w1)"
      by (cases x) simp
    note run = install_deps_caught[OF wt w1]
    show ?thesis
    proof (cases "handler X (path_string (cwd w0)) e w1")
      case (Inl y)
      then show ?thesis
        by (simp add: run wt w1 raised_def os_getcwd_def)
    next
      case (Inr w2)
      then show ?thesis
        by (simp add: run wt w1 raised_def os_getcwd_def message_line_def)
    qed
  qed
qed

theorem finished_message_witness:
  "succeeded (prepare offline ''/home/u'' None sample_world)
   \<and> raised (install_body offline ''/home/u'' None (final (prepare offline ''/home/u'' None sample_world)))
       = Some (PyError ExternalError ''no route to host'')
   \<and> succeeded (install_deps offline ''/home/u'' None sample_world)
   \<and> terminal (final (install_deps offline ''/home/u'' None sample_world))
       = message_line ''Downloading PETSc...'' @ ''no route to host'' @ newline
           @ message_line finished
   \<and> (\<exists>out. terminal (final (install_deps offline ''/home/u'' None sample_world))
               = out @ message_line finished)"
proof -
  have h1: "succeeded (prepare offline ''/home/u'' None sample_world)"
    by code_simp
  have h2: "raised (install_body offline ''/home/u'' None
              (final (prepare offline ''/home/u'' None sample_world)))
            = Some (PyError ExternalError ''no route to host'')"
    by code_simp
  have h3: "succeeded (install_deps offline ''/home/u'' None sample_world)"
    by code_simp
  have h4: "terminal (final (install_deps offline ''/home/u'' None sample_world))
       = message_line ''Downloading PETSc...'' @ ''no route to host'' @ newline
           @ message_line finished"
    by code_simp
  from finished_message[OF h1] h3
  have "\<exists>out. terminal (final (install_deps offline ''/home/u'' None sample_world))
               = out @ message_line finished"
    by blast
  with h1 h2 h3 h4 show ?thesis
    by blast
qed

theorem finished_message_counterexample:
  "succeeded (prepare locked_build ''/home/u'' None rerun_world)
   \<and> raised (install_body locked_build ''/home/u'' None
        (final (prepare locked_build ''/home/u'' None rerun_world)))
       = Some (PyError ExternalError ''no route to host'')
   \<and> raised (install_deps locked_build ''/home/u'' None rerun_world)
       = Some (PyError PermissionError ''./build/'')
   \<and> terminal (final (install_deps locked_build ''/home/u'' None rerun_world))
       = message_line ''Downloading PETSc...'' @ ''no route to host'' @ newline"
  by code_simp

section \<open>The history of a run\<close>

lemma emitsI:
  assumes "\<And>w. J (environ w) \<Longrightarrow> J (environ (final (f w)))"
    and "\<And>w. J (environ w) \<Longrightarrow> \<exists>evs. trace (final (f w)) = trace w @ evs \<and> list_all P evs"
  shows "emits J P f"
  using assms by (simp add: emits_def)

lemma emitsD:
  assumes "emits J P f" and "J (environ w)"
  shows "J (environ (final (f w)))"
    and "\<exists>evs. trace (final (f w)) = trace w @ evs \<and> list_all P evs"
  using assms by (simp_all add: emits_def)

lemma emits_silent:
  assumes "\<And>w. trace (final (f w)) = trace w" and "\<And>w. environ (final (f w)) = environ w"
  shows "emits J P f"
  using assms by (simp add: emits_def)

lemma emits_ok:
  assumes "\<And>w. trace (g w) = trace w" and "\<And>w. J (environ w) \<Longrightarrow> J (environ (g w))"
  shows "emits J P (ok g)"
  using assms by (simp add: emits_def ok_def)

lemma final_os_chdir [simp]:
  "trace (final (os_chdir name w)) = trace w" "environ (final (os_chdir name w)) = environ w"
  by (simp_all add: os_chdir_def Let_def raise_def split: option.splits node.splits)

lemma final_os_makedirs [simp]:
  "trace (final (os_makedirs X name w)) = trace w"
  "environ (final (os_makedirs X name w)) = environ w"
  by (simp_all add: os_makedirs_def Let_def raise_def)

lemma final_shutil_rmtree [simp]:
  "trace (final (shutil_rmtree X name w)) = trace w"
  "environ (final (shutil_rmtree X name w)) = environ w"
  by (simp_all add: shutil_rmtree_def Let_def raise_def split: option.splits node.splits)

lemma final_os_remove [simp]:
  "trace (final (os_remove X name w)) = trace w"
  "environ (final (os_remove X name w)) = environ w"
  by (simp_all add: os_remove_def Let_def raise_def split: option.splits node.splits)

lemma final_ensure_dir [simp]:
  "trace (final (ensure_dir X d w)) = trace w" "environ (final (ensure_dir X d w)) = environ w"
  by (simp_all add: ensure_dir_def)

lemma final_write_file [simp]:
  "trace (final (write_file X name mode content w))
     = trace w @ (if succeeded (write_file X name mode content w) then [Open_file name mode]
                  else [])"
  "environ (final (write_file X name mode content w)) = environ w"
  by (simp_all add: write_file_def Let_def raise_def)


lemma final_open_append [simp]:
  "trace (final (open_append X name w))
     = trace w @ (if succeeded (open_append X name w) then [Open_file name ''a''] else [])"
  "environ (final (open_append X name w)) = environ w"
  by (simp_all add: open_append_def Let_def raise_def)

lemma final_call [simp]:
  "trace (final (call X args w)) = trace w @ [Call args (environ w)]"
  "environ (final (call X args w)) = environ w"
  by (simp_all add: call_def Let_def split: sum.splits)

lemma final_download:
  "environ (final (download X url fname w)) = environ w"
  "trace (final (download X url fname w)) = trace w @ [HttpGet url (environ w)]
   \<or> trace (final (download X url fname w))
       = trace w @ [HttpGet url (environ w), Open_file fname ''wb'']"
  by (simp_all add: download_def Let_def split: sum.splits)

lemma emits_call:
  assumes "\<And>env. J env \<Longrightarrow> P (Call args env)"
  shows "emits J P (call X args)"
  using assms by (simp add: emits_def)

lemma emits_write_file:
  assumes "P (Open_file name mode)"
  shows "emits J P (write_file X name mode content)"
  using assms by (simp add: emits_def)


lemma emits_download:
  assumes "\<And>env. J env \<Longrightarrow> P (HttpGet url env)" and "P (Open_file fname ''wb'')"
  shows "emits J P (download X url fname)"
proof (rule emitsI)
  fix w :: world
  assume J: "J (environ w)"
  then show "J (environ (final (download X url fname w)))"
    by (simp add: final_download(1))
  from final_download(2)[of X url fname w] assms(1)[OF J] assms(2)
  show "\<exists>evs. trace (final (download X url fname w)) = trace w @ evs \<and> list_all P evs"
    by auto
qed

lemma emits_seq:
  assumes "list_all (emits J P) steps"
  shows "emits J P (seq steps)"
  using assms
proof (induction steps)
  case Nil
  show ?case by (simp add: emits_def)
next
  case (Cons f rest)
  then have f: "emits J P f" and rest: "emits J P (seq rest)"
    by simp_all
  show ?case
  proof (rule emitsI)
    fix w :: world
    assume J: "J (environ w)"
    note F = emitsD[OF f J]
    show "J (environ (final (seq (f # rest) w)))"
    proof (cases "f w")
      case (Inl x)
      with F(1) show ?thesis by simp
    next
      case (Inr w1)
      with F(1) have "J (environ w1)" by simp
      from emitsD(1)[OF rest this] Inr show ?thesis by simp
    qed
    show "\<exists>evs. trace (final (seq (f # rest) w)) = trace w @ evs \<and> list_all P evs"
    proof (cases "f w")
      case (Inl x)
      with F(2) show ?thesis by simp
    next
      case (Inr w1)
      with F have J1: "J (environ w1)"
        and "\<exists>evs. trace w1 = trace w @ evs \<and> list_all P evs"
        by simp_all
      then obtain e1 where e1: "trace w1 = trace w @ e1" "list_all P e1"
        by blast
      from emitsD(2)[OF rest J1] obtain e2
        where e2: "trace (final (seq rest w1)) = trace w1 @ e2" "list_all P e2"
        by blast
      from e1 e2 Inr have "trace (final (seq (f # rest) w)) = trace w @ (e1 @ e2)"
        and "list_all P (e1 @ e2)"
        by simp_all
      then show ?thesis by blast
    qed
  qed
qed

lemma emits_if:
  assumes "emits J P f"
  shows "emits J P (\<lambda>w. if c w then f w else Inr w)"
  using assms by (simp add: emits_def)

lemma emits_try_except:
  assumes "emits J P body" and "\<And>e. emits J P (h e)"
  shows "emits J P (try_except body h)"
proof (rule emitsI)
  fix w :: world
  assume J: "J (environ w)"
  note B = emitsD[OF assms(1) J]
  show "J (environ (final (try_except body h w)))"
  proof (cases "body w")
    case (Inr w1)
    with B(1) show ?thesis by (simp add: try_except_def)
  next
    case (Inl x)
    obtain e w1 where x: "x = (e, w1)" by (cases x)
    with Inl B(1) have "J (environ w1)" by simp
    from emitsD(1)[OF assms(2) this, of e] Inl x show ?thesis
      by (simp add: try_except_def)
  qed
  show "\<exists>evs. trace (final (try_except body h w)) = trace w @ evs \<and> list_all P evs"
  proof (cases "body w")
    case (Inr w1)
    with B(2) show ?thesis by (simp add: try_except_def)
  next
    case (Inl x)
    obtain e w1 where x: "x = (e, w1)" by (cases x)
    with Inl B have J1: "J (environ w1)"
      and "\<exists>evs. trace w1 = trace w @ evs \<and> list_all P evs"
      by simp_all
    then obtain e1 where e1: "trace w1 = trace w @ e1" "list_all P e1"
      by blast
    from emitsD(2)[OF assms(2) J1, of e] obtain e2
      where e2: "trace (final (h e w1)) = trace w1 @ e2" "list_all P e2"
      by blast
    from e1 e2 Inl x have "trace (final (try_except body h w)) = trace w @ (e1 @ e2)"
      and "list_all P (e1 @ e2)"
      by (simp_all add: try_except_def)
    then show ?thesis by blast
  qed
qed


lemma emits_os_chdir: "emits J P (os_chdir name)"
  by (rule emits_silent) simp_all

lemma emits_shutil_rmtree: "emits J P (shutil_rmtree X name)"
  by (rule emits_silent) simp_all

lemma emits_os_remove: "emits J P (os_remove X name)"
  by (rule emits_silent) simp_all


lemma emits_print_message: "emits J P (ok (print_message s))"
  by (rule emits_ok) simp_all

lemma emits_py_print: "emits J P (ok (py_print s))"
  by (rule emits_ok) simp_all


lemma emits_environ_set: "emits (\<lambda>env. True) P (ok (environ_set k v))"
  by (rule emits_ok) (simp_all add: environ_set_def)



lemma emits_handler: "emits J P (handler X c e)"
  unfolding handler_def install_end_def
  by (intro emits_seq emits_if) (simp add: emits_py_print emits_seq emits_os_chdir emits_if
      emits_shutil_rmtree)





lemma handler_trace [simp]: "trace (final (handler X c e w)) = trace w"
  using emitsD(2)[OF emits_handler[of "\<lambda>env. True" "\<lambda>ev. False" X c e], of w]
  by (auto simp: list_all_iff)




lemma new_events_eq:
  "trace (final r) = trace w @ evs \<Longrightarrow> new_events w r = evs"
  by (simp add: new_events_def)






lemma emits_two_phases:
  assumes "emits J P (seq B)" and "emits (\<lambda>env. True) P (seq C)" and "J (environ w)"
  shows "\<exists>evs. trace (final (seq (B @ C) w)) = trace w @ evs \<and> list_all P evs"
proof (cases "seq B w")
  case (Inl x)
  with emitsD(2)[OF assms(1,3)] show ?thesis
    by (simp add: seq_append)
next
  case (Inr w1)
  with emitsD(2)[OF assms(1,3)] obtain e1 where e1: "trace w1 = trace w @ e1" "list_all P e1"
    by auto
  from emitsD(2)[OF assms(2), of w1] obtain e2
    where e2: "trace (final (seq C w1)) = trace w1 @ e2" "list_all P e2"
    by auto
  from e1 e2 Inr have "trace (final (seq (B @ C) w)) = trace w @ (e1 @ e2)"
    and "list_all P (e1 @ e2)"
    by (simp_all add: seq_append)
  then show ?thesis by blast
qed

lemma first_event:
  assumes "\<exists>m. trace (final (f w)) = trace w @ ev # m"
    and "emits (\<lambda>env. True) (\<lambda>ev. True) (seq rest)"
  shows "\<exists>more. trace (final (seq (f # rest) w)) = trace w @ ev # more"
proof (cases "f w")
  case (Inl x)
  with assms(1) show ?thesis by simp
next
  case (Inr w1)
  with assms(1) obtain m where m: "trace w1 = trace w @ ev # m"
    by auto
  from emitsD(2)[OF assms(2), of w1] obtain e2 where "trace (final (seq rest w1)) = trace w1 @ e2"
    by auto
  with m Inr have "trace (final (seq (f # rest) w)) = trace w @ ev # (m @ e2)"
    by simp
  then show ?thesis by blast
qed

lemma download_first:
  "\<exists>m. trace (final (download X url fname w)) = trace w @ HttpGet url (environ w) # m"
  using final_download(2)[of X url fname w] by auto

lemma install_petsc_events:
  "(\<exists>env rest. new_events w (install_petsc X d w) = HttpGet petsc_url env # rest
        \<and> env ''PETSC_DIR'' = None \<and> env ''PETSC_ARCH'' = None)
   \<and> list_all (unset_in [''PETSC_DIR'', ''PETSC_ARCH'']) (new_events w (install_petsc X d w))"
proof -
  let ?J = "\<lambda>env :: string \<Rightarrow> string option. env ''PETSC_DIR'' = None \<and> env ''PETSC_ARCH'' = None"
  let ?P = "unset_in [''PETSC_DIR'', ''PETSC_ARCH'']"
  let ?A = "[ok (\<lambda>w. if ''PETSC_DIR'' \<in> dom (environ w) then environ_del ''PETSC_DIR'' w else w),
             ok (\<lambda>w. if ''PETSC_ARCH'' \<in> dom (environ w) then environ_del ''PETSC_ARCH'' w else w),
             ok (print_message ''Downloading PETSc...'')]"
  let ?B' = "[call X [''tar'', ''xvzf'', petsc_fname],
             os_chdir petsc_folder,
             ok (print_message ''Compiling PETSc...''),
             call X (petsc_configure d),
             call X [''make'', ''all'', ''test''],
             ok (print_message ''Installing PETSc...''),
             call X [''make'', ''install'']]"
  let ?B = "download X petsc_url petsc_fname # ?B'"
  let ?C = "[ok (environ_set ''PETSC_DIR'' d),
             ok (print_message ''Cleaning up working directory...''),
             os_chdir ''../'',
             shutil_rmtree X petsc_folder]"
  obtain w3 where A: "seq ?A w = Inr w3" and t3: "trace w3 = trace w" and J3: "?J (environ w3)"
    by (simp add: ok_def environ_del_def domIff)
  have "install_petsc X d w = seq (?A @ (?B @ ?C)) w"
    by (simp only: install_petsc_def append_Cons append_Nil)
  with A have run: "install_petsc X d w = seq (?B @ ?C) w3"
    by (simp only: seq_append sum.case)
  have B: "emits ?J ?P (seq ?B)"
    by (rule emits_seq)
      (simp add: emits_download emits_call emits_os_chdir emits_print_message)
  have C: "emits (\<lambda>env. True) ?P (seq ?C)"
    by (rule emits_seq)
      (simp add: emits_environ_set emits_print_message emits_os_chdir emits_shutil_rmtree)
  from emits_two_phases[OF B C J3] obtain evs
    where evs: "trace (final (seq (?B @ ?C) w3)) = trace w3 @ evs" "list_all ?P evs"
    by blast
  have "emits (\<lambda>env. True) (\<lambda>ev. True) (seq (?B' @ ?C))"
    by (rule emits_seq)
      (simp add: emits_call emits_os_chdir emits_print_message emits_environ_set
        emits_shutil_rmtree)
  from first_event[where f = "download X petsc_url petsc_fname" and w = w3, OF download_first this]
  obtain more
    where more: "trace (final (seq (?B @ ?C) w3))
                   = trace w3 @ HttpGet petsc_url (environ w3) # more"
    by auto
  from evs t3 have 1: "new_events w (install_petsc X d w) = evs"
    by (simp add: run new_events_eq)
  from more t3 have 2: "new_events w (install_petsc X d w) = HttpGet petsc_url (environ w3) # more"
    by (simp add: run new_events_eq)
  from 1 2 evs(2) J3 show ?thesis
    by auto
qed

lemma install_slepc_events:
  "(\<exists>env rest. new_events w (install_slepc X d w) = HttpGet slepc_url env # rest
        \<and> env ''SLEPC_DIR'' = None)
   \<and> list_all (unset_in [''SLEPC_DIR'']) (new_events w (install_slepc X d w))"
proof -
  let ?J = "\<lambda>env :: string \<Rightarrow> string option. env ''SLEPC_DIR'' = None"
  let ?P = "unset_in [''SLEPC_DIR'']"
  let ?A = "[ok (\<lambda>w. if ''SLEPC_DIR'' \<in> dom (environ w) then environ_del ''SLEPC_DIR'' w else w),
             ok (print_message ''Downloading SLEPc source...'')]"
  let ?B' = "[call X [''tar'', ''xvzf'', slepc_fname],
             ok (print_message ''Compiling SLEPc...''),
             os_chdir slepc_folder,
             call X [''./configure'', ''--prefix='' @ d],
             call X [''make'', ''all''],
             call X [''make'', ''install''],
             call X [''make'', ''test''],
             os_chdir ''../'',
             shutil_rmtree X slepc_folder,
             os_remove X slepc_fname]"
  let ?B = "download X slepc_url slepc_fname # ?B'"
  obtain w2 where A: "seq ?A w = Inr w2" and t2: "trace w2 = trace w" and J2: "?J (environ w2)"
    by (simp add: ok_def environ_del_def domIff)
  have "install_slepc X d w = seq (?A @ ?B) w"
    by (simp only: install_slepc_def append_Cons append_Nil)
  with A have run: "install_slepc X d w = seq ?B w2"
    by (simp only: seq_append sum.case)
  have B: "emits ?J ?P (seq ?B)"
    by (rule emits_seq)
      (simp add: emits_download emits_call emits_os_chdir emits_print_message
        emits_shutil_rmtree emits_os_remove)
  from emitsD(2)[OF B J2] obtain evs
    where evs: "trace (final (seq ?B w2)) = trace w2 @ evs" "list_all ?P evs"
    by blast
  have "emits (\<lambda>env. True) (\<lambda>ev. True) (seq ?B')"
    by (rule emits_seq)
      (simp add: emits_call emits_os_chdir emits_print_message emits_shutil_rmtree
        emits_os_remove)
  from first_event[where f = "download X slepc_url slepc_fname" and w = w2, OF download_first this]
  obtain more
    where more: "trace (final (seq ?B w2)) = trace w2 @ HttpGet slepc_url (environ w2) # more"
    by auto
  from evs t2 have 1: "new_events w (install_slepc X d w) = evs"
    by (simp add: run new_events_eq)
  from more t2 have 2: "new_events w (install_slepc X d w) = HttpGet slepc_url (environ w2) # more"
    by (simp add: run new_events_eq)
  from 1 2 evs(2) J2 show ?thesis
    by auto
qed

text \<open>
  Claim C7. In each installer the first request to the outside is the download, and the
  download and every later child process of that installer (\<open>tar\<close>, \<open>configure\<close>,
  \<open>make\<close>) see an environment where the stale variables of the package are unset:
  \<open>PETSC_DIR\<close> and \<open>PETSC_ARCH\<close> in \<open>install_petsc\<close>, \<open>SLEPC_DIR\<close> in
  \<open>install_slepc\<close>, whatever the environment was on entry.
\<close>

theorem sanitize_before_download:
  "(\<exists>env rest. new_events w (install_petsc X d w) = HttpGet petsc_url env # rest
        \<and> env ''PETSC_DIR'' = None \<and> env ''PETSC_ARCH'' = None)
   \<and> list_all (unset_in [''PETSC_DIR'', ''PETSC_ARCH'']) (new_events w (install_petsc X d w))
   \<and> (\<exists>env rest. new_events w (install_slepc X d w) = HttpGet slepc_url env # rest
        \<and> env ''SLEPC_DIR'' = None)
   \<and> list_all (unset_in [''SLEPC_DIR'']) (new_events w (install_slepc X d w))"
  using install_petsc_events[of w X d] install_slepc_events[of w X d] by blast


theorem sanitize_before_download_witness:
  "environ sample_world ''PETSC_DIR'' = Some ''/old/petsc''
   \<and> environ sample_world ''PETSC_ARCH'' = Some ''arch-old''
   \<and> environ sample_world ''SLEPC_DIR'' = Some ''/old/slepc''
   \<and> length (new_events sample_world (install_petsc sample_externals ''/x/'' sample_world)) = 6
   \<and> list_all (unset_in [''PETSC_DIR'', ''PETSC_ARCH''])
        (new_events sample_world (install_petsc sample_externals ''/x/'' sample_world))
   \<and> length (new_events sample_world (install_slepc sample_externals ''/x/'' sample_world)) = 7
   \<and> list_all (unset_in [''SLEPC_DIR''])
        (new_events sample_world (install_slepc sample_externals ''/x/'' sample_world))"
proof -
  have 1: "environ sample_world ''PETSC_DIR'' = Some ''/old/petsc''"
    "environ sample_world ''PETSC_ARCH'' = Some ''arch-old''"
    "environ sample_world ''SLEPC_DIR'' = Some ''/old/slepc''"
    by code_simp+
  have 2: "length (new_events sample_world (install_petsc sample_externals ''/x/'' sample_world)) = 6"
    by code_simp
  have 3: "length (new_events sample_world (install_slepc sample_externals ''/x/'' sample_world)) = 7"
    by code_simp
  from sanitize_before_download[of sample_world sample_externals "''/x/''"] 1 2 3 show ?thesis
    by blast
qed

end
